theory Spec2Isabelle
  imports Main "HOL-Library.AList"
begin

section \<open>Values, objects and the two external stores\<close>

text \<open>
  The settings manager compares configuration values with \<^verbatim>\<open>===\<close> and \<^verbatim>\<open>!==\<close>.
  On \<^verbatim>\<open>undefined\<close>, \<^verbatim>\<open>null\<close>, booleans, strings and integral numbers strict
  equality is equality of the values, which is what \<open>jsval\<close> holds. Object-valued
  settings (compared by reference) and \<^verbatim>\<open>NaN\<close> are outside the model.
\<close>

datatype jsval = JUndefined | JNull | JBool bool | JNum int | JStr string

text \<open>
  \<^verbatim>\<open>type StorageState = { [k: string]: unknown }\<close>: an object, held as the list of
  its properties in insertion order. A well-formed object has no key twice
  (\<open>distinct (object_keys obj)\<close>). \<open>obj_get obj k\<close> is \<^verbatim>\<open>obj[k]\<close>, which is
  \<^verbatim>\<open>undefined\<close> for a missing key; \<open>assign k v obj\<close> is \<^verbatim>\<open>obj[k] = v\<close>, which
  overwrites in place or appends; \<open>object_keys\<close> is \<^verbatim>\<open>Object.keys\<close> (for keys that
  are not array indices, which JavaScript would list first).
\<close>

type_synonym StorageState = "(string \<times> jsval) list"

definition object_keys :: "StorageState \<Rightarrow> string list" where
  "object_keys obj = map fst obj"

definition obj_get :: "StorageState \<Rightarrow> string \<Rightarrow> jsval" where
  "obj_get obj k = (case map_of obj k of None \<Rightarrow> JUndefined | Some v \<Rightarrow> v)"

definition assign :: "string \<Rightarrow> jsval \<Rightarrow> StorageState \<Rightarrow> StorageState" where
  "assign k v obj = AList.update k v obj"

text \<open>
  Modelled from the spec: the configuration store (\<^verbatim>\<open>./vSCodeConfigurator\<close>) and the
  durable key-value store (the extension's \<^verbatim>\<open>globalState\<close>) are not among the
  sources. The spec gives their contracts: \<^verbatim>\<open>get(key) -> Value\<close> and
  \<^verbatim>\<open>set(key, Value)\<close> with read-after-write consistency for the first;
  \<^verbatim>\<open>get(key) -> Value|absent\<close> and \<^verbatim>\<open>update(key, Value|absent)\<close> for the second,
  each record holding a flat mapping or being absent. Both always acknowledge.
  \<open>config_writes\<close> logs every \<^verbatim>\<open>set\<close> call in order, so that "no write happened"
  can be said.
\<close>

record world =
  configuration :: "string \<Rightarrow> jsval"
  config_writes :: "(string \<times> jsval) list"
  storageState :: "string \<Rightarrow> StorageState option"

definition cfg_get :: "world \<Rightarrow> string \<Rightarrow> jsval" where
  "cfg_get w iD = configuration w iD"

definition cfg_set :: "string \<Rightarrow> jsval \<Rightarrow> world \<Rightarrow> world" where
  "cfg_set iD v w =
     w\<lparr>configuration := (configuration w)(iD := v),
       config_writes := config_writes w @ [(iD, v)]\<rparr>"

definition storage_update :: "string \<Rightarrow> StorageState option \<Rightarrow> world \<Rightarrow> world" where
  "storage_update key v w = w\<lparr>storageState := (storageState w)(key := v)\<rparr>"

text \<open>The \<^verbatim>\<open>set\<close> calls made between an earlier state and a later one.\<close>

definition writes_since :: "world \<Rightarrow> world \<Rightarrow> (string \<times> jsval) list" where
  "writes_since w w' = drop (length (config_writes w)) (config_writes w')"

section \<open>Monitor\<close>

text \<open>
  Modelled from the spec: the Monitor (\<^verbatim>\<open>./monitor\<close>) is not among the sources. The
  spec gives its state (\<^verbatim>\<open>owned: bool\<close>, \<^verbatim>\<open>waiters\<close>: an ordered queue of
  resumption tokens) and its contract: \<^verbatim>\<open>enter()\<close> suspends the caller until it is the
  sole holder; \<^verbatim>\<open>leave()\<close> releases and wakes the next waiter in FIFO order, or
  marks the lock free if there is none; \<^verbatim>\<open>someoneIsWaiting\<close> tells whether the queue
  is non-empty. A resumption token is the number of the logical flow that called
  \<^verbatim>\<open>enter()\<close>. \<open>enter\<close> returns whether the caller goes on at once. What
  \<^verbatim>\<open>leave()\<close> does on a free monitor the spec leaves open (a programming error);
  no call below does that.
\<close>

record Monitor =
  owned :: bool
  waiters :: "nat list"

definition new_Monitor :: Monitor where
  "new_Monitor = \<lparr>owned = False, waiters = []\<rparr>"

definition enter :: "nat \<Rightarrow> Monitor \<Rightarrow> bool \<times> Monitor" where
  "enter c m =
     (if owned m then (False, m\<lparr>waiters := waiters m @ [c]\<rparr>) else (True, m\<lparr>owned := True\<rparr>))"

text \<open>\<open>woken m\<close> is the waiter that \<^verbatim>\<open>leave()\<close> resumes, if any.\<close>

definition woken :: "Monitor \<Rightarrow> nat option" where
  "woken m = (case waiters m of [] \<Rightarrow> None | c # cs \<Rightarrow> Some c)"

definition leave :: "Monitor \<Rightarrow> Monitor" where
  "leave m = (case waiters m of [] \<Rightarrow> m\<lparr>owned := False\<rparr> | c # cs \<Rightarrow> m\<lparr>waiters := cs\<rparr>)"

definition someoneIsWaiting :: "Monitor \<Rightarrow> bool" where
  "someoneIsWaiting m = (waiters m \<noteq> [])"

text \<open>
  An async method that starts with \<^verbatim>\<open>await monitor.enter()\<close>, called by flow
  \<open>c\<close>: on a free monitor it goes on at once with the rest of its body and is
  \<open>Done\<close>; on an owned one it is queued (\<open>Waiting\<close>), and the rest of its body runs
  when the monitor resumes it, on the state of that moment.
\<close>

datatype ('a, 's) progress = Done 'a | Waiting 's

text \<open>
  A run of the monitor under a sequence of calls. Besides the monitor the run records
  what an observer sees: \<open>submitted\<close>, the flows in the order of their \<^verbatim>\<open>enter()\<close>
  calls; \<open>resumed\<close>, the flows in the order in which their \<^verbatim>\<open>enter()\<close> returned;
  \<open>inside\<close>, the flows whose \<^verbatim>\<open>enter()\<close> has returned and that have not called
  \<^verbatim>\<open>leave()\<close> since. The \<^verbatim>\<open>enter()\<close> calls that are suspended are the submitted
  ones that have not been resumed. A call sequence is refused (\<open>None\<close>) when a flow
  calls \<^verbatim>\<open>enter()\<close> while it is inside or suspended (re-entrancy), or calls
  \<^verbatim>\<open>leave()\<close> while it is not inside (a leave with no enter before it).
\<close>

datatype call = Enter nat | Leave nat

record observed =
  monitor :: Monitor
  inside :: "nat list"
  submitted :: "nat list"
  resumed :: "nat list"

definition suspended :: "observed \<Rightarrow> nat list" where
  "suspended s = drop (length (resumed s)) (submitted s)"

definition initially :: observed where
  "initially = \<lparr>monitor = new_Monitor, inside = [], submitted = [], resumed = []\<rparr>"

fun step :: "call \<Rightarrow> observed \<Rightarrow> observed option" where
  "step (Enter c) s =
     (if c \<in> set (inside s) \<or> c \<in> set (suspended s) then None
      else case enter c (monitor s) of
        (True, m) \<Rightarrow>
          Some (s\<lparr>monitor := m, inside := inside s @ [c],
                  submitted := submitted s @ [c], resumed := resumed s @ [c]\<rparr>)
      | (False, m) \<Rightarrow> Some (s\<lparr>monitor := m, submitted := submitted s @ [c]\<rparr>))"
| "step (Leave c) s =
     (if c \<in> set (inside s) then
        (case woken (monitor s) of
           None \<Rightarrow> Some (s\<lparr>monitor := leave (monitor s), inside := removeAll c (inside s)\<rparr>)
         | Some d \<Rightarrow>
             Some (s\<lparr>monitor := leave (monitor s), inside := removeAll c (inside s) @ [d],
                     resumed := resumed s @ [d]\<rparr>))
      else None)"

fun run :: "call list \<Rightarrow> observed \<Rightarrow> observed option" where
  "run [] s = Some s"
| "run (e # es) s = (case step e s of None \<Rightarrow> None | Some s' \<Rightarrow> run es s')"

text \<open>
  What holds of every state a run reaches: the queue of the monitor is exactly the
  suspended calls, the resumed calls are the first of the submitted ones, the monitor is
  owned exactly when a flow is inside, and a free monitor has no waiter.
\<close>

definition monitor_inv :: "observed \<Rightarrow> bool" where
  "monitor_inv s =
     (waiters (monitor s) = suspended s \<and>
      length (resumed s) \<le> length (submitted s) \<and>
      resumed s = take (length (resumed s)) (submitted s) \<and>
      (owned (monitor s) = (inside s \<noteq> [])) \<and>
      length (inside s) \<le> 1 \<and>
      (owned (monitor s) \<or> waiters (monitor s) = []))"

section \<open>TemporarySideBySideSettingsManager\<close>

text \<open>
  Modelled from the spec: \<^verbatim>\<open>extensionID\<close> comes from \<^verbatim>\<open>./iDs\<close>, which is not among
  the sources; the spec only says that the storage keys are fixed, namespaced
  identifiers. The repository's name is used; all that matters below is that the keys
  built from it differ.
\<close>

definition extensionID :: string where
  "extensionID = ''vscode-as-git-mergetool''"

definition origActualKey :: string where
  "origActualKey = extensionID @ ''.temporarySettings.origActual''"

definition origTargetKey :: string where
  "origTargetKey = extensionID @ ''.temporarySettings.origTarget''"

text \<open>
  The manager's own data is the constructor argument \<^verbatim>\<open>targetSettings\<close>;
  \<^verbatim>\<open>targetIDs\<close> is \<^verbatim>\<open>Object.keys(targetSettings)\<close>. The default argument of
  the constructor is \<open>defaultTargetSettings\<close>.
\<close>

definition targetIDs :: "StorageState \<Rightarrow> string list" where
  "targetIDs targetSettings = object_keys targetSettings"

definition defaultTargetSettings :: StorageState where
  "defaultTargetSettings =
     [(''diffEditor.renderSideBySide'', JBool False),
      (''editor.lineNumbers'', JStr ''none''),
      (''workbench.editor.showTabs'', JBool False),
      (''editor.glyphMargin'', JBool False),
      (''workbench.activityBar.visible'', JBool False)]"

text \<open>
  \<^verbatim>\<open>getStorageState\<close>: the stored value when \<^verbatim>\<open>typeof value === "object"\<close>, the
  empty object otherwise. The two entries are written by \<^verbatim>\<open>setStorageState\<close> only,
  whose argument has the type \<^verbatim>\<open>StorageState | undefined\<close>: an entry is an object,
  for which the test is true, or is absent, for which it is false.
\<close>

definition getStorageState :: "world \<Rightarrow> string \<Rightarrow> StorageState" where
  "getStorageState w key = (case storageState w key of Some obj \<Rightarrow> obj | None \<Rightarrow> [])"

definition setStorageState :: "string \<Rightarrow> StorageState option \<Rightarrow> world \<Rightarrow> world" where
  "setStorageState key v w = storage_update key v w"

text \<open>
  Both methods run their body between \<^verbatim>\<open>monitor.enter()\<close> and \<^verbatim>\<open>monitor.leave()\<close>
  of the manager's own monitor. \<open>activateSettings\<close> and \<open>resetSettings\<close> below are
  these bodies (the \<^verbatim>\<open>try\<close> blocks); \<open>activateSettings_call\<close> and
  \<open>resetSettings_call\<close> are the methods with the monitor. Calls made one after the
  other each find the monitor free, as the previous call left it, so that the body is the
  whole effect of the call (\<open>activateSettings_call_free\<close>, \<open>resetSettings_call_free\<close>).

  The first loop of \<^verbatim>\<open>activateSettings\<close>, one equation per iteration. The state
  of the loop is the world, \<^verbatim>\<open>newOrigActual\<close>, \<^verbatim>\<open>newOrigTarget\<close> and
  \<^verbatim>\<open>obsoleteSettingKeys\<close> (a \<^verbatim>\<open>Set\<close>, held as a list in insertion order).
\<close>

fun activate_loop ::
  "StorageState \<Rightarrow> StorageState \<Rightarrow> StorageState \<Rightarrow> string list \<Rightarrow>
   world \<times> StorageState \<times> StorageState \<times> string list \<Rightarrow>
   world \<times> StorageState \<times> StorageState \<times> string list" where
  "activate_loop targetSettings oldOrigActual oldOrigTarget [] s = s"
| "activate_loop targetSettings oldOrigActual oldOrigTarget (iD # iDs)
     (w, newOrigActual, newOrigTarget, obsoleteSettingKeys) =
     (let obsoleteSettingKeys' = removeAll iD obsoleteSettingKeys;
          newTarget = obj_get targetSettings iD;
          newActual = cfg_get w iD;
          w' = (if newActual \<noteq> newTarget then cfg_set iD newTarget w else w);
          newOrigActual' =
            assign iD
              (if newActual = obj_get oldOrigTarget iD then obj_get oldOrigActual iD else newActual)
              newOrigActual;
          newOrigTarget' = assign iD newTarget newOrigTarget
      in activate_loop targetSettings oldOrigActual oldOrigTarget iDs
           (w', newOrigActual', newOrigTarget', obsoleteSettingKeys'))"

text \<open>The second loop: every obsolete key is set back to its remembered original.\<close>

fun restore_obsolete :: "StorageState \<Rightarrow> string list \<Rightarrow> world \<Rightarrow> world" where
  "restore_obsolete oldOrigActual [] w = w"
| "restore_obsolete oldOrigActual (iD # iDs) w =
     restore_obsolete oldOrigActual iDs (cfg_set iD (obj_get oldOrigActual iD) w)"

definition activateSettings :: "StorageState \<Rightarrow> world \<Rightarrow> world" where
  "activateSettings targetSettings w =
     (let oldOrigActual = getStorageState w origActualKey;
          oldOrigTarget = getStorageState w origTargetKey
      in case activate_loop targetSettings oldOrigActual oldOrigTarget
                (targetIDs targetSettings) (w, [], [], object_keys oldOrigActual) of
           (w1, newOrigActual, newOrigTarget, obsoleteSettingKeys) \<Rightarrow>
             setStorageState origTargetKey (Some newOrigTarget)
               (setStorageState origActualKey (Some newOrigActual)
                  (restore_obsolete oldOrigActual obsoleteSettingKeys w1)))"

text \<open>The loop of \<^verbatim>\<open>resetSettings\<close> over \<^verbatim>\<open>Object.keys(origActual)\<close>.\<close>

fun reset_loop :: "StorageState \<Rightarrow> StorageState \<Rightarrow> string list \<Rightarrow> world \<Rightarrow> world" where
  "reset_loop origActual origTarget [] w = w"
| "reset_loop origActual origTarget (iD # iDs) w =
     (let newActual = cfg_get w iD
      in reset_loop origActual origTarget iDs
           (if newActual = obj_get origTarget iD then cfg_set iD (obj_get origActual iD) w else w))"

definition resetSettings :: "world \<Rightarrow> world" where
  "resetSettings w =
     (let origActual = getStorageState w origActualKey;
          origTarget = getStorageState w origTargetKey;
          origChangedIDs = object_keys origActual
      in setStorageState origTargetKey None
           (setStorageState origActualKey None
              (reset_loop origActual origTarget origChangedIDs w)))"

definition activateSettings_call ::
  "nat \<Rightarrow> StorageState \<Rightarrow> Monitor \<times> world \<Rightarrow> (Monitor \<times> world, Monitor \<times> world) progress" where
  "activateSettings_call c targetSettings s =
     (case enter c (fst s) of
        (True, m) \<Rightarrow> Done (leave m, activateSettings targetSettings (snd s))
      | (False, m) \<Rightarrow> Waiting (m, snd s))"

definition resetSettings_call ::
  "nat \<Rightarrow> Monitor \<times> world \<Rightarrow> (Monitor \<times> world, Monitor \<times> world) progress" where
  "resetSettings_call c s =
     (case enter c (fst s) of
        (True, m) \<Rightarrow> Done (leave m, resetSettings (snd s))
      | (False, m) \<Rightarrow> Waiting (m, snd s))"

text \<open>
  Worlds used as concrete inputs. \<open>example_world\<close> with \<open>example_targetSettings\<close> is
  the example of the spec (managed keys A and B, live A = true and B = "none", nothing
  persisted). \<open>overridden_world\<close> is the world a first activation leaves when it is
  never reset (a crash, say). In \<open>edited_world\<close> the user has changed B while it was
  overridden. In \<open>shrunk_world\<close> the snapshot remembers a key C that is no longer
  managed.
\<close>

definition example_targetSettings :: StorageState where
  "example_targetSettings = [(''A'', JBool False), (''B'', JStr ''none'')]"

definition example_world :: world where
  "example_world =
     \<lparr>configuration = (\<lambda>_. JUndefined)(''A'' := JBool True, ''B'' := JStr ''none''),
      config_writes = [],
      storageState = (\<lambda>_. None)\<rparr>"

definition overridden_world :: world where
  "overridden_world =
     \<lparr>configuration = (\<lambda>_. JUndefined)(''A'' := JBool False, ''B'' := JStr ''none''),
      config_writes = [],
      storageState = (\<lambda>_. None)
        (origActualKey := Some [(''A'', JBool True), (''B'', JStr ''none'')],
         origTargetKey := Some [(''A'', JBool False), (''B'', JStr ''none'')])\<rparr>"

definition edited_world :: world where
  "edited_world =
     \<lparr>configuration = (\<lambda>_. JUndefined)(''A'' := JBool False, ''B'' := JStr ''on''),
      config_writes = [],
      storageState = (\<lambda>_. None)
        (origActualKey := Some [(''A'', JBool True), (''B'', JStr ''none'')],
         origTargetKey := Some [(''A'', JBool False), (''B'', JStr ''none'')])\<rparr>"

definition shrunk_world :: world where
  "shrunk_world =
     \<lparr>configuration =
        (\<lambda>_. JUndefined)(''A'' := JBool False, ''B'' := JStr ''none'', ''C'' := JNum 1),
      config_writes = [],
      storageState = (\<lambda>_. None)
        (origActualKey := Some [(''A'', JBool True), (''B'', JStr ''none''), (''C'', JNum 2)],
         origTargetKey := Some [(''A'', JBool False), (''B'', JStr ''none''), (''C'', JNum 1)])\<rparr>"

section \<open>DiffLayouterManager\<close>

text \<open>
  The collaborators of the manager are not among the sources; they are held by what the
  manager reads of them and by a log of the calls it makes to them.
\<close>

text \<open>
  Modelled from the spec: \<^verbatim>\<open>DiffedURIs\<close> (\<^verbatim>\<open>./diffedURIs\<close>) is not among the
  sources. It is the content tuple base, local, remote, merged, with an optional backup,
  and \<^verbatim>\<open>equalsWithoutBackup\<close> compares two tuples "ignoring backup-source
  identity". A location is a file URI or, for \<^verbatim>\<open>readonlyFileURI\<close> of
  \<^verbatim>\<open>./readonlyDocumentProvider\<close>, a read-only file URI.
\<close>

datatype Uri = FileUri string | ReadonlyFileUri string

record DiffedURIs =
  base :: Uri
  localUri :: Uri
  remote :: Uri
  merged :: Uri
  backup :: "Uri option"

definition equalsWithoutBackup :: "DiffedURIs \<Rightarrow> DiffedURIs \<Rightarrow> bool" where
  "equalsWithoutBackup a b =
     (base a = base b \<and> localUri a = localUri b \<and> remote a = remote b \<and> merged a = merged b)"

text \<open>
  Modelled from the spec: \<^verbatim>\<open>Zoom\<close> (\<^verbatim>\<open>./zoom\<close>) is not among the sources; the
  manager uses \<^verbatim>\<open>Zoom.default\<close> and passes any other value on.
\<close>

datatype Zoom = ZoomDefault | ZoomOther nat

text \<open>
  Modelled from the spec: the layout factories and layouters (\<^verbatim>\<open>./layouters\<close>) are
  not among the sources. A \<^verbatim>\<open>DiffLayouterFactory\<close> is an object with a
  \<^verbatim>\<open>settingValue\<close>; the manager compares factories by reference, which
  \<open>ident\<close> stands for. A \<^verbatim>\<open>DiffLayouter\<close> (a session) is an object (\<open>session\<close>
  is its identity) with its \<^verbatim>\<open>diffedURIs\<close> and the flags \<^verbatim>\<open>isActive\<close> and
  \<^verbatim>\<open>isActivating\<close>.
\<close>

datatype DiffLayouterFactory = Factory (ident: nat) (settingValue: string)

record DiffLayouter =
  session :: nat
  diffedURIs :: DiffedURIs
  isActive :: bool
  isActivating :: bool

text \<open>
  The calls the manager makes to the editor, to its layouters and to its listeners, in
  order. \<open>ShowErrorMessage text items\<close> is \<^verbatim>\<open>window.showErrorMessage\<close> (with the
  titles of its items when it is a prompt).
\<close>

datatype event =
    ShowErrorMessage string "string list"
  | ShowQuickPick "string list"
  | Deactivate nat bool
  | Create DiffLayouterFactory nat
  | TryActivate nat Zoom bool
  | SetLayout nat Zoom
  | CloseActiveEditor
  | RegisterDeactivationHandler
  | FireDidLayoutActivate nat

text \<open>
  The fields of the class, the stores of the configurator and the settings manager it was
  constructed with (\<open>vSCodeConfigurator\<close>), the log, and the number of layouters
  created so far (the next object identity).
\<close>

record DiffLayouterManager =
  factories :: "DiffLayouterFactory list"
  defaultFactory :: DiffLayouterFactory
  layouterFactory :: "DiffLayouterFactory option"
  layouter :: "DiffLayouter option"
  layouterManagerMonitor :: Monitor
  switchLayoutStatusBarItem :: bool
  vSCodeConfigurator :: world
  events :: "event list"
  created :: nat

definition layoutSettingID :: string where
  "layoutSettingID = extensionID @ ''.layout''"

definition emit :: "event \<Rightarrow> DiffLayouterManager \<Rightarrow> DiffLayouterManager" where
  "emit e st = st\<lparr>events := events st @ [e]\<rparr>"

text \<open>\<^verbatim>\<open>await this.layouterManagerMonitor.enter()\<close> and the rest of the method.\<close>

definition await_enter ::
  "nat \<Rightarrow> (DiffLayouterManager \<Rightarrow> 'a) \<Rightarrow> DiffLayouterManager \<Rightarrow>
   ('a, DiffLayouterManager) progress" where
  "await_enter c body st =
     (case enter c (layouterManagerMonitor st) of
        (True, m) \<Rightarrow> Done (body (st\<lparr>layouterManagerMonitor := m\<rparr>))
      | (False, m) \<Rightarrow> Waiting (st\<lparr>layouterManagerMonitor := m\<rparr>))"

text \<open>\<^verbatim>\<open>finally { await this.layouterManagerMonitor.leave(); }\<close>\<close>

definition finally_leave :: "DiffLayouterManager \<Rightarrow> DiffLayouterManager" where
  "finally_leave st = st\<lparr>layouterManagerMonitor := leave (layouterManagerMonitor st)\<rparr>"

definition activateSwitchLayoutStatusBarItem :: "DiffLayouterManager \<Rightarrow> DiffLayouterManager" where
  "activateSwitchLayoutStatusBarItem st =
     (if switchLayoutStatusBarItem st then st else st\<lparr>switchLayoutStatusBarItem := True\<rparr>)"

text \<open>
  \<^verbatim>\<open>activateLayouter\<close>. \<open>activated\<close> is what \<^verbatim>\<open>tryActivate\<close> makes of the new
  layouter's \<^verbatim>\<open>isActive\<close>.
\<close>

definition activateLayouter ::
  "DiffedURIs \<Rightarrow> DiffLayouterFactory \<Rightarrow> bool \<Rightarrow> DiffLayouterManager \<Rightarrow> DiffLayouterManager" where
  "activateLayouter uris newLayouterFactory activated st =
     (let oldLayouter = layouter st;
          st1 = (case oldLayouter of None \<Rightarrow> st
                 | Some l \<Rightarrow> emit (Deactivate (session l) True) st);
          new = \<lparr>session = created st1, diffedURIs = uris,
                 isActive = activated, isActivating = False\<rparr>;
          st2 = emit (Create newLayouterFactory (session new))
                  (st1\<lparr>layouterFactory := Some newLayouterFactory, layouter := Some new,
                       created := Suc (created st1)\<rparr>);
          st3 = emit (TryActivate (session new) ZoomDefault (oldLayouter \<noteq> None)) st2
      in activateSwitchLayoutStatusBarItem st3)"

text \<open>
  \<^verbatim>\<open>getLayoutFactory\<close>. The answers of the user to the repair prompt are given as a
  list (\<open>None\<close> is a dismissed prompt); a prompt with no answer left never returns,
  which is the result \<open>None\<close>. One equation per iteration of \<^verbatim>\<open>while (true)\<close>.
\<close>

datatype MessageItem = RestoreDefault | UseDefaultOnce | Cancel

definition unknown_layout_message :: string where
  "unknown_layout_message = ''Diff layout setting has an unknown value.''"

definition repair_items :: "string list" where
  "repair_items = [''Restore default'', ''Use default once'', ''Cancel'']"

fun getLayoutFactory_loop ::
  "jsval \<Rightarrow> MessageItem option list \<Rightarrow> DiffLayouterManager \<Rightarrow>
   (DiffLayouterFactory option \<times> DiffLayouterManager) option" where
  "getLayoutFactory_loop layoutSetting [] st =
     (case find (\<lambda>factory. JStr (settingValue factory) = layoutSetting) (factories st) of
        Some factory \<Rightarrow> Some (Some factory, st)
      | None \<Rightarrow> None)"
| "getLayoutFactory_loop layoutSetting (selectedItem # answers) st =
     (case find (\<lambda>factory. JStr (settingValue factory) = layoutSetting) (factories st) of
        Some factory \<Rightarrow> Some (Some factory, st)
      | None \<Rightarrow>
          (let st1 = emit (ShowErrorMessage unknown_layout_message repair_items) st
           in if selectedItem = Some Cancel \<or> selectedItem = None then Some (None, st1)
              else getLayoutFactory_loop (JStr (settingValue (defaultFactory st1))) answers
                     (if selectedItem = Some RestoreDefault
                      then st1\<lparr>vSCodeConfigurator :=
                             cfg_set layoutSettingID (JStr (settingValue (defaultFactory st1)))
                               (vSCodeConfigurator st1)\<rparr>
                      else st1)))"

definition getLayoutFactory ::
  "MessageItem option list \<Rightarrow> DiffLayouterManager \<Rightarrow>
   (DiffLayouterFactory option \<times> DiffLayouterManager) option" where
  "getLayoutFactory answers st =
     getLayoutFactory_loop (cfg_get (vSCodeConfigurator st) layoutSettingID) answers st"

text \<open>
  \<^verbatim>\<open>openDiffedURIs\<close>. \<open>already_open\<close> is the condition of its first \<^verbatim>\<open>if\<close>.
  \<open>openDiffedURIs_critical\<close> is the method from the moment \<^verbatim>\<open>enter()\<close> has
  returned; its result is \<open>None\<close> when a repair prompt is never answered.
\<close>

definition already_open :: "DiffedURIs \<Rightarrow> DiffLayouterManager \<Rightarrow> bool" where
  "already_open uris st =
     (case layouter st of
        None \<Rightarrow> False
      | Some l \<Rightarrow> (isActivating l \<or> isActive l) \<and> equalsWithoutBackup uris (diffedURIs l))"

definition openDiffedURIs_critical ::
  "DiffedURIs \<Rightarrow> bool \<Rightarrow> bool \<Rightarrow> MessageItem option list \<Rightarrow> bool \<Rightarrow> DiffLayouterManager \<Rightarrow>
   (bool \<times> DiffLayouterManager) option" where
  "openDiffedURIs_critical uris closeActiveEditor deactivationHandler answers activated st =
     (if already_open uris st then Some (True, finally_leave st)
      else case getLayoutFactory answers st of
        None \<Rightarrow> None
      | Some (None, st1) \<Rightarrow> Some (False, finally_leave st1)
      | Some (Some newLayouterFactory, st1) \<Rightarrow>
          (let st2 = (if closeActiveEditor then emit CloseActiveEditor st1 else st1);
               st3 = activateLayouter uris newLayouterFactory activated st2;
               st4 = (if deactivationHandler then emit RegisterDeactivationHandler st3 else st3);
               st5 = finally_leave st4;
               st6 = (case layouter st5 of None \<Rightarrow> st5
                      | Some l \<Rightarrow> emit (FireDidLayoutActivate (session l)) st5)
           in Some (True, st6)))"

definition openDiffedURIs ::
  "nat \<Rightarrow> DiffedURIs \<Rightarrow> bool \<Rightarrow> bool \<Rightarrow> MessageItem option list \<Rightarrow> bool \<Rightarrow>
   DiffLayouterManager \<Rightarrow> ((bool \<times> DiffLayouterManager) option, DiffLayouterManager) progress" where
  "openDiffedURIs c uris closeActiveEditor deactivationHandler answers activated st =
     await_enter c
       (openDiffedURIs_critical uris closeActiveEditor deactivationHandler answers activated) st"

text \<open>
  \<^verbatim>\<open>switchLayout\<close>. \<open>layoutName\<close> is its argument of type \<^verbatim>\<open>unknown\<close>,
  \<open>pickResult\<close> the answer to the quick pick (taken at once; \<open>None\<close> when it is
  dismissed). \<^verbatim>\<open>this.layouter.diffedURIs\<close> on a missing layouter throws a
  \<^verbatim>\<open>TypeError\<close> inside the \<^verbatim>\<open>try\<close>: the monitor is left and the call rejects.
\<close>

datatype completion = Returned | Threw_TypeError

definition not_active_message :: string where
  "not_active_message = ''This requires the diff layout to be active''"

definition situation_changed_message :: string where
  "situation_changed_message = ''The situation has changed meanwhile. Please try again.''"

definition switchLayout_critical ::
  "DiffLayouterFactory \<Rightarrow> bool \<Rightarrow> DiffLayouterManager \<Rightarrow> completion \<times> DiffLayouterManager" where
  "switchLayout_critical targetFactory activated st =
     (case layouter st of
        None \<Rightarrow> (Threw_TypeError, finally_leave st)
      | Some l \<Rightarrow>
          (let st1 = activateLayouter (diffedURIs l) targetFactory activated st;
               st2 = finally_leave st1;
               st3 = (case layouter st2 of None \<Rightarrow> st2
                      | Some l' \<Rightarrow> emit (FireDidLayoutActivate (session l')) st2)
           in (Returned, st3)))"

definition switchLayout ::
  "nat \<Rightarrow> jsval \<Rightarrow> string option \<Rightarrow> bool \<Rightarrow> DiffLayouterManager \<Rightarrow>
   (completion \<times> DiffLayouterManager, DiffLayouterManager) progress" where
  "switchLayout c layoutName pickResult activated st =
     (if layouter st = None
      then Done (Returned, emit (ShowErrorMessage not_active_message []) st)
      else
        (let named = (case layoutName of
                        JStr name \<Rightarrow> find (\<lambda>factory. settingValue factory = name) (factories st)
                      | _ \<Rightarrow> None);
             st1 = (if named = None
                    then emit (ShowQuickPick
                                 (map settingValue
                                    (filter (\<lambda>factory. Some factory \<noteq> layouterFactory st)
                                       (factories st)))) st
                    else st);
             target = (case named of
                         Some factory \<Rightarrow> Some factory
                       | None \<Rightarrow>
                           (case pickResult of
                              None \<Rightarrow> None
                            | Some picked \<Rightarrow>
                                find (\<lambda>factory. settingValue factory = picked) (factories st)))
         in case target of
              None \<Rightarrow> Done (Returned, st1)
            | Some targetFactory \<Rightarrow>
                await_enter c (switchLayout_critical targetFactory activated)
                  (if Some targetFactory = layouterFactory st1 \<or> layouter st1 = None
                   then emit (ShowErrorMessage situation_changed_message []) st1
                   else st1)))"

text \<open>\<^verbatim>\<open>handleWasZoomRequested\<close>, the same way.\<close>

definition zoom_inactive_message :: string where
  "zoom_inactive_message = ''Diff layout must be active to use zoom commands.''"

definition handleWasZoomRequested_critical ::
  "Zoom \<Rightarrow> DiffLayouterManager \<Rightarrow> DiffLayouterManager" where
  "handleWasZoomRequested_critical zoom st =
     finally_leave
       (if someoneIsWaiting (layouterManagerMonitor st) then st
        else case layouter st of
          None \<Rightarrow> emit (ShowErrorMessage zoom_inactive_message []) st
        | Some l \<Rightarrow>
            if isActive l then emit (SetLayout (session l) zoom) st
            else emit (ShowErrorMessage zoom_inactive_message []) st)"

definition handleWasZoomRequested ::
  "nat \<Rightarrow> Zoom \<Rightarrow> DiffLayouterManager \<Rightarrow> (DiffLayouterManager, DiffLayouterManager) progress" where
  "handleWasZoomRequested c zoom st = await_enter c (handleWasZoomRequested_critical zoom) st"

text \<open>
  A manager with two registered factories and an active session of the first kind, on a
  free monitor; and the same manager with a layout setting that names no factory.
\<close>

definition example_uris :: DiffedURIs where
  "example_uris =
     \<lparr>base = ReadonlyFileUri ''/w/base'', localUri = ReadonlyFileUri ''/w/local'',
      remote = ReadonlyFileUri ''/w/remote'', merged = FileUri ''/w/merged'', backup = None\<rparr>"

definition other_uris :: DiffedURIs where
  "other_uris =
     \<lparr>base = ReadonlyFileUri ''/v/base'', localUri = ReadonlyFileUri ''/v/local'',
      remote = ReadonlyFileUri ''/v/remote'', merged = FileUri ''/v/merged'', backup = None\<rparr>"

definition active_manager :: DiffLayouterManager where
  "active_manager =
     \<lparr>factories = [Factory 0 ''3DiffToBase'', Factory 1 ''4TransferRight''],
      defaultFactory = Factory 1 ''4TransferRight'',
      layouterFactory = Some (Factory 0 ''3DiffToBase''),
      layouter = Some \<lparr>session = 0, diffedURIs = example_uris,
                        isActive = True, isActivating = False\<rparr>,
      layouterManagerMonitor = new_Monitor,
      switchLayoutStatusBarItem = True,
      vSCodeConfigurator =
        \<lparr>configuration = (\<lambda>_. JUndefined)(layoutSettingID := JStr ''3DiffToBase''),
         config_writes = [],
         storageState = (\<lambda>_. None)\<rparr>,
      events = [],
      created = 1\<rparr>"

definition misconfigured_manager :: DiffLayouterManager where
  "misconfigured_manager =
     active_manager\<lparr>vSCodeConfigurator :=
       \<lparr>configuration = (\<lambda>_. JUndefined)(layoutSettingID := JStr ''5Diff''),
        config_writes = [],
        storageState = (\<lambda>_. None)\<rparr>\<rparr>"

text \<open>
  States of the manager at the moment a call has entered the monitor: with a waiter
  queued behind it, with nobody waiting, and with nobody waiting and no session.
\<close>

definition contended_manager :: DiffLayouterManager where
  "contended_manager = active_manager\<lparr>layouterManagerMonitor := \<lparr>owned = True, waiters = [7]\<rparr>\<rparr>"

definition entered_manager :: DiffLayouterManager where
  "entered_manager = active_manager\<lparr>layouterManagerMonitor := \<lparr>owned = True, waiters = []\<rparr>\<rparr>"

definition idle_manager :: DiffLayouterManager where
  "idle_manager = entered_manager\<lparr>layouter := None, layouterFactory := None\<rparr>"

definition misconfigured_entered :: DiffLayouterManager where
  "misconfigured_entered =
     misconfigured_manager\<lparr>layouterManagerMonitor := \<lparr>owned = True, waiters = []\<rparr>\<rparr>"

text \<open>
  \<^verbatim>\<open>this.layouter?.isActive\<close> is truthy; the configured layout kind is the
  \<^verbatim>\<open>settingValue\<close> of no registered factory; the state and the result of a call
  that has completed.
\<close>

definition session_active :: "DiffLayouterManager \<Rightarrow> bool" where
  "session_active st = (case layouter st of None \<Rightarrow> False | Some l \<Rightarrow> isActive l)"

definition kind_unknown :: "DiffLayouterManager \<Rightarrow> bool" where
  "kind_unknown st =
     (find (\<lambda>factory. JStr (settingValue factory) = cfg_get (vSCodeConfigurator st) layoutSettingID)
        (factories st) = None)"

definition done_state ::
  "('a \<times> DiffLayouterManager, DiffLayouterManager) progress \<Rightarrow> DiffLayouterManager option" where
  "done_state p = (case p of Done (r, st) \<Rightarrow> Some st | Waiting st \<Rightarrow> None)"

definition done_result :: "('a \<times> DiffLayouterManager, DiffLayouterManager) progress \<Rightarrow> 'a option" where
  "done_result p = (case p of Done (r, st) \<Rightarrow> Some r | Waiting st \<Rightarrow> None)"

section \<open>ArbitraryFilesMerger\<close>

text \<open>
  \<^verbatim>\<open>mergeArbitraryFiles\<close> calls five collaborators, none of which is among the
  sources: the file selector, the git path lookup, \<^verbatim>\<open>execFilePromise\<close>,
  \<^verbatim>\<open>fs.writeFile\<close> and the manager's \<^verbatim>\<open>openDiffedURIs\<close>. What they answer is
  a parameter (\<open>merge_env\<close>); the calls made are logged in order.

  \<open>selection\<close> is the \<^verbatim>\<open>selectionResult\<close>: the four paths and
  \<^verbatim>\<open>merged.validationResult?.emptyLoc\<close> (\<open>None\<close> when it is undefined).
  \<open>ExecFileResult\<close> is the \<^verbatim>\<open>gitResult\<close>: \<^verbatim>\<open>error\<close> is \<open>None\<close> for
  \<^verbatim>\<open>null\<close>, and \<open>Some code\<close> for an error with that \<^verbatim>\<open>code\<close> (a number, or
  \<open>None\<close> for \<^verbatim>\<open>undefined\<close>).
\<close>

record selection =
  base_fsPath :: string
  local_fsPath :: string
  remote_fsPath :: string
  merged_fsPath :: string
  merged_emptyLoc :: "bool option"

record ExecFileResult =
  error :: "int option option"
  stdout :: string
  stderr :: string

record merge_env =
  doSelection :: "selection option"
  getVSCGitPathInteractively :: "string option"
  dirname :: "string \<Rightarrow> string"
  execFilePromise :: "string \<Rightarrow> string list \<Rightarrow> string \<Rightarrow> ExecFileResult"
  writeFile :: "string \<Rightarrow> string \<Rightarrow> bool"
  manager_openDiffedURIs :: "DiffedURIs \<Rightarrow> bool \<Rightarrow> bool"

datatype merger_call =
    DoSelection
  | GetVSCGitPathInteractively
  | ExecFile string "string list" string
  | MergerShowErrorMessage string
  | WriteFile string string
  | OpenDiffedURIs DiffedURIs bool

definition readonlyFileURI :: "string \<Rightarrow> Uri" where
  "readonlyFileURI fsPath = ReadonlyFileUri fsPath"

definition merge_file_arguments :: "selection \<Rightarrow> string list" where
  "merge_file_arguments selectionResult =
     [''merge-file'', ''--stdout'', local_fsPath selectionResult,
      base_fsPath selectionResult, remote_fsPath selectionResult]"

text \<open>The condition under which the git result is reported as an error.\<close>

definition git_error :: "ExecFileResult \<Rightarrow> bool" where
  "git_error gitResult =
     (case error gitResult of
        None \<Rightarrow> False
      | Some code \<Rightarrow>
          (case code of None \<Rightarrow> True | Some n \<Rightarrow> n < 0 \<or> n > 127))"

definition selected_uris :: "selection \<Rightarrow> DiffedURIs" where
  "selected_uris selectionResult =
     \<lparr>base = readonlyFileURI (base_fsPath selectionResult),
      localUri = readonlyFileURI (local_fsPath selectionResult),
      remote = readonlyFileURI (remote_fsPath selectionResult),
      merged = FileUri (merged_fsPath selectionResult),
      backup = None\<rparr>"

text \<open>
  What \<^verbatim>\<open>git merge-file --stdout local base remote\<close> answers when it is run in the
  directory of the merged file: the \<^verbatim>\<open>gitResult\<close> of lines 44 to 58.
\<close>

definition merge_file_result :: "merge_env \<Rightarrow> string \<Rightarrow> selection \<Rightarrow> ExecFileResult" where
  "merge_file_result env gitPath selectionResult =
     execFilePromise env gitPath (merge_file_arguments selectionResult)
       (dirname env (merged_fsPath selectionResult))"

text \<open>
  The body of \<^verbatim>\<open>if (selectionResult.merged.validationResult?.emptyLoc === true)\<close>:
  the calls it makes, and whether the method goes on after it (it returns \<^verbatim>\<open>false\<close>
  from inside otherwise).
\<close>

definition merge_by_git :: "merge_env \<Rightarrow> string \<Rightarrow> selection \<Rightarrow> bool \<times> merger_call list" where
  "merge_by_git env gitPath selectionResult =
     (let mergedPath = merged_fsPath selectionResult;
          arguments = merge_file_arguments selectionResult;
          cwd = dirname env mergedPath;
          gitResult = merge_file_result env gitPath selectionResult
      in if git_error gitResult then
           (False,
            [ExecFile gitPath arguments cwd,
             MergerShowErrorMessage
               (''Error when merging files by Git: '' @ stderr gitResult @ ''.'')])
         else (writeFile env mergedPath (stdout gitResult),
               [ExecFile gitPath arguments cwd, WriteFile mergedPath (stdout gitResult)]))"

definition mergeArbitraryFiles :: "merge_env \<Rightarrow> bool \<times> merger_call list" where
  "mergeArbitraryFiles env =
     (case doSelection env of
        None \<Rightarrow> (False, [DoSelection])
      | Some selectionResult \<Rightarrow>
          (case getVSCGitPathInteractively env of
             None \<Rightarrow> (False, [DoSelection, GetVSCGitPathInteractively])
           | Some gitPath \<Rightarrow>
               (let prepared = (if merged_emptyLoc selectionResult = Some True
                                then merge_by_git env gitPath selectionResult
                                else (True, []));
                    calls = [DoSelection, GetVSCGitPathInteractively] @ snd prepared
                in if fst prepared then
                     (manager_openDiffedURIs env (selected_uris selectionResult) False,
                      calls @ [OpenDiffedURIs (selected_uris selectionResult) False])
                   else (False, calls))))"

text \<open>
  A call of the method has failed: the selection was cancelled, no git path was found,
  git reported an error, or the merged file could not be written.
\<close>

definition step_failed :: "merge_env \<Rightarrow> merger_call \<Rightarrow> bool" where
  "step_failed env call =
     (case call of
        DoSelection \<Rightarrow> doSelection env = None
      | GetVSCGitPathInteractively \<Rightarrow> getVSCGitPathInteractively env = None
      | ExecFile filePath arguments cwd \<Rightarrow> git_error (execFilePromise env filePath arguments cwd)
      | WriteFile path data \<Rightarrow> \<not> writeFile env path data
      | MergerShowErrorMessage text \<Rightarrow> False
      | OpenDiffedURIs uris closeActiveEditor \<Rightarrow> False)"

definition is_OpenDiffedURIs :: "merger_call \<Rightarrow> bool" where
  "is_OpenDiffedURIs call = (case call of OpenDiffedURIs uris closeActiveEditor \<Rightarrow> True | _ \<Rightarrow> False)"

definition example_selection :: selection where
  "example_selection =
     \<lparr>base_fsPath = ''/w/base'', local_fsPath = ''/w/local'', remote_fsPath = ''/w/remote'',
      merged_fsPath = ''/w/merged'', merged_emptyLoc = Some True\<rparr>"

text \<open>
  Git exits with the given error, every write succeeds and the manager opens the layout.
\<close>

definition example_env :: "int option option \<Rightarrow> merge_env" where
  "example_env git_exit =
     \<lparr>doSelection = Some example_selection,
      getVSCGitPathInteractively = Some ''/usr/bin/git'',
      dirname = (\<lambda>path. ''/w''),
      execFilePromise =
        (\<lambda>filePath arguments cwd.
           \<lparr>error = git_exit, stdout = ''merged text'', stderr = ''conflict''\<rparr>),
      writeFile = (\<lambda>path data. True),
      manager_openDiffedURIs = (\<lambda>uris closeActiveEditor. True)\<rparr>"

text \<open>
  The same with the selection cancelled, with no git path found, with a merged file that
  cannot be written, and with a merged location that is not empty.
\<close>

definition cancelled_env :: merge_env where
  "cancelled_env = (example_env None)\<lparr>doSelection := None\<rparr>"

definition no_git_env :: merge_env where
  "no_git_env = (example_env None)\<lparr>getVSCGitPathInteractively := None\<rparr>"

definition unwritable_env :: merge_env where
  "unwritable_env = (example_env None)\<lparr>writeFile := (\<lambda>path data. False)\<rparr>"

definition occupied_env :: "int option option \<Rightarrow> merge_env" where
  "occupied_env git_exit =
     (example_env git_exit)\<lparr>doSelection := Some (example_selection\<lparr>merged_emptyLoc := None\<rparr>)\<rparr>"

section \<open>Properties of the settings manager\<close>

subsection \<open>Objects and stores\<close>

lemma obj_get_assign: "obj_get (assign k v obj) k' = (if k' = k then v else obj_get obj k')"
  by (simp add: obj_get_def assign_def update_conv')

lemma assign_fresh: "k \<notin> set (object_keys obj) \<Longrightarrow> assign k v obj = obj @ [(k, v)]"
  unfolding assign_def object_keys_def by (induction obj) auto

lemma obj_get_append_map:
  "k \<in> set ks \<Longrightarrow> k \<notin> set (object_keys obj) \<Longrightarrow> obj_get (obj @ map (\<lambda>k. (k, f k)) ks) k = f k"
  unfolding obj_get_def object_keys_def
  by (auto simp: map_of_map_restrict  map_of_eq_None_iff[symmetric] map_add_def split: option.splits)

lemma cfg_get_cfg_set: "cfg_get (cfg_set k v w) k' = (if k' = k then v else cfg_get w k')"
  by (simp add: cfg_get_def cfg_set_def)

lemma storageState_cfg_set: "storageState (cfg_set k v w) = storageState w"
  by (simp add: cfg_set_def)

lemma activate_loop_closed:
  "distinct iDs \<Longrightarrow> set iDs \<inter> set (object_keys na) = {} \<Longrightarrow> set iDs \<inter> set (object_keys nt) = {} \<Longrightarrow>
   snd (activate_loop T oa ot iDs (w, na, nt, obs)) =
     (na @ map (\<lambda>k. (k, if cfg_get w k = obj_get ot k then obj_get oa k else cfg_get w k)) iDs,
      nt @ map (\<lambda>k. (k, obj_get T k)) iDs,
      filter (\<lambda>k. k \<notin> set iDs) obs)"
proof (induction iDs arbitrary: w na nt obs)
  case Nil
  then show ?case by simp
next
  case (Cons iD iDs)
  have fresh: "iD \<notin> set (object_keys na)" "iD \<notin> set (object_keys nt)" "iD \<notin> set iDs"
    using Cons.prems by auto
  let ?w' = "if cfg_get w iD \<noteq> obj_get T iD then cfg_set iD (obj_get T iD) w else w"
  have same: "\<And>k. k \<in> set iDs \<Longrightarrow> cfg_get ?w' k = cfg_get w k"
    using fresh by (auto simp: cfg_get_cfg_set)
  have d: "distinct iDs" using Cons.prems by simp
  have k1: "set iDs \<inter> set (object_keys (na @ [(iD, v)])) = {}" for v
    using Cons.prems by (auto simp: object_keys_def)
  have k2: "set iDs \<inter> set (object_keys (nt @ [(iD, v)])) = {}" for v
    using Cons.prems by (auto simp: object_keys_def)
  show ?case
    using fresh same
    by (auto simp: Let_def assign_fresh Cons.IH[OF d k1 k2] removeAll_filter_not_eq cfg_get_cfg_set
          intro!: filter_cong)
qed

lemma config_writes_cfg_set: "config_writes (cfg_set k v w) = config_writes w @ [(k, v)]"
  by (simp add: cfg_set_def)

lemma activate_loop_storage:
  "storageState (fst (activate_loop T oa ot iDs (w, na, nt, obs))) = storageState w"
  by (induction iDs arbitrary: w na nt obs) (simp_all add: Let_def storageState_cfg_set)

lemma activate_loop_cfg:
  "cfg_get (fst (activate_loop T oa ot iDs (w, na, nt, obs))) k =
     (if k \<in> set iDs then obj_get T k else cfg_get w k)"
  by (induction iDs arbitrary: w na nt obs) (auto simp: Let_def cfg_get_cfg_set)

lemma activate_loop_writes:
  "distinct iDs \<Longrightarrow>
   config_writes (fst (activate_loop T oa ot iDs (w, na, nt, obs))) =
     config_writes w @ map (\<lambda>k. (k, obj_get T k)) (filter (\<lambda>k. cfg_get w k \<noteq> obj_get T k) iDs)"
proof (induction iDs arbitrary: w na nt obs)
  case Nil
  then show ?case by simp
next
  case (Cons iD iDs)
  have "filter (\<lambda>k. cfg_get (cfg_set iD v w) k \<noteq> obj_get T k) iDs =
        filter (\<lambda>k. cfg_get w k \<noteq> obj_get T k) iDs" for v
    using Cons.prems by (intro filter_cong) (auto simp: cfg_get_cfg_set)
  with Cons show ?case
    by (simp add: Let_def config_writes_cfg_set)
qed

lemma restore_obsolete_storage: "storageState (restore_obsolete oa ks w) = storageState w"
  by (induction ks arbitrary: w) (simp_all add: storageState_cfg_set)

lemma restore_obsolete_cfg:
  "cfg_get (restore_obsolete oa ks w) k = (if k \<in> set ks then obj_get oa k else cfg_get w k)"
  by (induction ks arbitrary: w) (auto simp: cfg_get_cfg_set)

lemma restore_obsolete_writes:
  "config_writes (restore_obsolete oa ks w) = config_writes w @ map (\<lambda>k. (k, obj_get oa k)) ks"
  by (induction ks arbitrary: w) (simp_all add: config_writes_cfg_set)

lemma reset_loop_storage: "storageState (reset_loop oa ot ks w) = storageState w"
  by (induction ks arbitrary: w) (simp_all add: Let_def storageState_cfg_set)

lemma reset_loop_cfg:
  "distinct ks \<Longrightarrow>
   cfg_get (reset_loop oa ot ks w) k =
     (if k \<in> set ks \<and> cfg_get w k = obj_get ot k then obj_get oa k else cfg_get w k)"
  by (induction ks arbitrary: w) (auto simp: Let_def cfg_get_cfg_set)

lemma reset_loop_untouched:
  "cfg_get w k \<noteq> obj_get ot k \<Longrightarrow>
   cfg_get (reset_loop oa ot ks w) k = cfg_get w k \<and>
   (\<exists>ws. config_writes (reset_loop oa ot ks w) = config_writes w @ ws \<and> k \<notin> fst ` set ws)"
proof (induction ks arbitrary: w)
  case Nil
  then show ?case by simp
next
  case (Cons iD iDs)
  let ?w1 = "if cfg_get w iD = obj_get ot iD then cfg_set iD (obj_get oa iD) w else w"
  have ne: "cfg_get w iD = obj_get ot iD \<Longrightarrow> iD \<noteq> k" using Cons.prems by auto
  have g: "cfg_get ?w1 k = cfg_get w k" using ne by (auto simp: cfg_get_cfg_set)
  then have "cfg_get ?w1 k \<noteq> obj_get ot k" using Cons.prems by simp
  from Cons.IH[OF this] obtain ws where
    a: "cfg_get (reset_loop oa ot iDs ?w1) k = cfg_get ?w1 k" and
    b: "config_writes (reset_loop oa ot iDs ?w1) = config_writes ?w1 @ ws" and
    c: "k \<notin> fst ` set ws" by blast
  obtain ws1 where d: "config_writes ?w1 = config_writes w @ ws1" and e: "k \<notin> fst ` set ws1"
    using ne by (cases "cfg_get w iD = obj_get ot iD") (auto simp: config_writes_cfg_set)
  have "config_writes (reset_loop oa ot (iD # iDs) w) = config_writes w @ (ws1 @ ws)"
    using b d by (simp add: Let_def)
  moreover have "k \<notin> fst ` set (ws1 @ ws)" using c e by auto
  moreover have "cfg_get (reset_loop oa ot (iD # iDs) w) k = cfg_get w k"
    using a g by (simp add: Let_def)
  ultimately show ?case by blast
qed

lemma keys_differ: "origActualKey \<noteq> origTargetKey"
  by (simp add: origActualKey_def origTargetKey_def)

lemma activate_loop_obsolete:
  "snd (snd (snd (activate_loop T oa ot iDs (w, na, nt, obs)))) = filter (\<lambda>k. k \<notin> set iDs) obs"
  by (induction iDs arbitrary: w na nt obs)
     (auto simp: Let_def removeAll_filter_not_eq intro!: filter_cong)

lemma object_keys_assign: "set (object_keys (assign k v obj)) = insert k (set (object_keys obj))"
  using dom_update[of k v obj] by (simp add: object_keys_def assign_def)

lemma activate_loop_keys:
  "set (object_keys (fst (snd (activate_loop T oa ot iDs (w, na, nt, obs))))) = set (object_keys na) \<union> set iDs \<and>
   set (object_keys (fst (snd (snd (activate_loop T oa ot iDs (w, na, nt, obs)))))) = set (object_keys nt) \<union> set iDs"
  by (induction iDs arbitrary: w na nt obs) (auto simp: Let_def object_keys_assign)

lemma activateSettings_alt:
  "activateSettings T w =
     (let oa = getStorageState w origActualKey;
          r = activate_loop T oa (getStorageState w origTargetKey) (targetIDs T) (w, [], [], object_keys oa)
      in setStorageState origTargetKey (Some (fst (snd (snd r))))
           (setStorageState origActualKey (Some (fst (snd r)))
              (restore_obsolete oa (snd (snd (snd r))) (fst r))))"
  by (simp add: activateSettings_def Let_def split: prod.splits)

lemma cfg_get_setStorageState: "cfg_get (setStorageState key v w) k = cfg_get w k"
  by (simp add: cfg_get_def setStorageState_def storage_update_def)

lemma config_writes_setStorageState: "config_writes (setStorageState key v w) = config_writes w"
  by (simp add: setStorageState_def storage_update_def)

lemma storageState_setStorageState:
  "storageState (setStorageState key v w) key' = (if key' = key then v else storageState w key')"
  by (simp add: setStorageState_def storage_update_def)

lemma activateSettings_cfg:
  "cfg_get (activateSettings T w) k =
     (if k \<in> set (targetIDs T) then obj_get T k
      else if k \<in> set (object_keys (getStorageState w origActualKey))
        then obj_get (getStorageState w origActualKey) k
      else cfg_get w k)"
  by (simp add: activateSettings_alt Let_def cfg_get_setStorageState restore_obsolete_cfg
      activate_loop_obsolete activate_loop_cfg)

lemma activateSettings_origActual:
  "distinct (targetIDs T) \<Longrightarrow>
   storageState (activateSettings T w) origActualKey =
     Some (map (\<lambda>k. (k, if cfg_get w k = obj_get (getStorageState w origTargetKey) k
                         then obj_get (getStorageState w origActualKey) k else cfg_get w k))
             (targetIDs T))"
  using activate_loop_closed[of "targetIDs T" "[]" "[]" T "getStorageState w origActualKey"
      "getStorageState w origTargetKey" w "object_keys (getStorageState w origActualKey)"]
  by (simp add: activateSettings_alt Let_def storageState_setStorageState keys_differ object_keys_def)

lemma activateSettings_origTarget:
  "distinct (targetIDs T) \<Longrightarrow>
   storageState (activateSettings T w) origTargetKey = Some (map (\<lambda>k. (k, obj_get T k)) (targetIDs T))"
  using activate_loop_closed[of "targetIDs T" "[]" "[]" T "getStorageState w origActualKey"
      "getStorageState w origTargetKey" w "object_keys (getStorageState w origActualKey)"]
  by (simp add: activateSettings_alt Let_def storageState_setStorageState keys_differ object_keys_def)

lemma obj_get_map: "k \<in> set ks \<Longrightarrow> obj_get (map (\<lambda>k. (k, f k)) ks) k = f k"
  using obj_get_append_map[of k ks "[]" f] by (simp add: object_keys_def)

lemma object_keys_map: "object_keys (map (\<lambda>k. (k, f k)) ks) = ks"
  by (simp add: object_keys_def comp_def)

lemma resetSettings_cfg:
  "distinct (object_keys (getStorageState w origActualKey)) \<Longrightarrow>
   cfg_get (resetSettings w) k =
     (if k \<in> set (object_keys (getStorageState w origActualKey)) \<and>
         cfg_get w k = obj_get (getStorageState w origTargetKey) k
      then obj_get (getStorageState w origActualKey) k else cfg_get w k)"
  by (simp add: resetSettings_def Let_def cfg_get_setStorageState reset_loop_cfg)

lemma resetSettings_storage:
  "storageState (resetSettings w) origActualKey = None \<and> storageState (resetSettings w) origTargetKey = None"
  by (simp add: resetSettings_def Let_def storageState_setStorageState)

lemmas eval_defs = activateSettings_def resetSettings_def getStorageState_def setStorageState_def
  storage_update_def cfg_get_def cfg_set_def obj_get_def assign_def object_keys_def targetIDs_def
  writes_since_def Let_def origActualKey_def origTargetKey_def extensionID_def

lemma activate_loop_writes_prefix:
  "\<exists>ws. config_writes (fst (activate_loop T oa ot iDs (w, na, nt, obs))) = config_writes w @ ws"
proof (induction iDs arbitrary: w na nt obs)
  case Nil
  then show ?case by simp
next
  case (Cons iD iDs)
  let ?w' = "if cfg_get w iD \<noteq> obj_get T iD then cfg_set iD (obj_get T iD) w else w"
  obtain ws1 where a: "config_writes ?w' = config_writes w @ ws1"
    by (cases "cfg_get w iD \<noteq> obj_get T iD") (auto simp: config_writes_cfg_set)
  have step: "fst (activate_loop T oa ot (iD # iDs) (w, na, nt, obs)) =
      fst (activate_loop T oa ot iDs (?w',
        assign iD (if cfg_get w iD = obj_get ot iD then obj_get oa iD else cfg_get w iD) na,
        assign iD (obj_get T iD) nt, removeAll iD obs))"
    by (simp add: Let_def)
  obtain ws2 where b: "config_writes (fst (activate_loop T oa ot (iD # iDs) (w, na, nt, obs))) =
      config_writes ?w' @ ws2"
    unfolding step using Cons.IH by blast
  have "config_writes (fst (activate_loop T oa ot (iD # iDs) (w, na, nt, obs))) =
      config_writes w @ (ws1 @ ws2)"
    using a b by simp
  then show ?case by blast
qed

lemma activateSettings_writes:
  "distinct (targetIDs T) \<Longrightarrow>
   config_writes (activateSettings T w) =
     config_writes w @
     map (\<lambda>k. (k, obj_get T k)) (filter (\<lambda>k. cfg_get w k \<noteq> obj_get T k) (targetIDs T)) @
     map (\<lambda>k. (k, obj_get (getStorageState w origActualKey) k))
       (filter (\<lambda>k. k \<notin> set (targetIDs T)) (object_keys (getStorageState w origActualKey)))"
  by (simp add: activateSettings_alt Let_def config_writes_setStorageState restore_obsolete_writes
      activate_loop_obsolete activate_loop_writes)

lemma defaultTargetSettings_distinct: "distinct (targetIDs defaultTargetSettings)"
  by (simp add: targetIDs_def object_keys_def defaultTargetSettings_def)

lemma activateSettings_call_free:
  "activateSettings_call c targetSettings (new_Monitor, w) =
     Done (new_Monitor, activateSettings targetSettings w)"
  by (simp add: activateSettings_call_def enter_def leave_def new_Monitor_def)

lemma resetSettings_call_free:
  "resetSettings_call c (new_Monitor, w) = Done (new_Monitor, resetSettings w)"
  by (simp add: resetSettings_call_def enter_def leave_def new_Monitor_def)

text \<open>
  \<open>overridden_world\<close> is what an activation makes of the example of the spec (but for
  the log of writes, which it starts empty).
\<close>

lemma overridden_world_reached:
  "activateSettings example_targetSettings example_world =
     overridden_world\<lparr>config_writes := [(''A'', JBool False)]\<rparr>"
  by (simp add: eval_defs example_targetSettings_def overridden_world_def example_world_def
      fun_upd_twist)

subsection \<open>The claims about the settings manager\<close>

text \<open>
  Claim C1 as it is stated fails for a persisted prior snapshot: in \<open>overridden_world\<close>
  the managed key A is live at \<^verbatim>\<open>false\<close>, the target remembered from the activation
  that was never reset, with \<^verbatim>\<open>true\<close> remembered as its original. Activation
  keeps that original and the reset writes it: A ends at \<^verbatim>\<open>true\<close>, not at the
  value it had just before \<^verbatim>\<open>activateSettings()\<close>.
\<close>

theorem roundtrip_counterexample:
  "''A'' \<in> set (targetIDs example_targetSettings) \<and>
   cfg_get overridden_world ''A'' = JBool False \<and>
   cfg_get (resetSettings (activateSettings example_targetSettings overridden_world)) ''A'' = JBool True \<and>
   cfg_get (resetSettings (activateSettings example_targetSettings overridden_world)) ''A'' \<noteq>
     cfg_get overridden_world ''A''"
  by (simp add: eval_defs example_targetSettings_def overridden_world_def)

text \<open>
  Claim C1 (round trip), as amended. After \<^verbatim>\<open>activateSettings()\<close> and then
  \<^verbatim>\<open>resetSettings()\<close>, with no edit in between, every managed key holds the
  remembered original \<^verbatim>\<open>oldOrigActual[k]\<close> if its live value before the activation
  was the remembered target \<^verbatim>\<open>oldOrigTarget[k]\<close>, and its live value before the
  activation otherwise. So with no snapshot persisted before, every managed key is back
  at its value before the activation. Both storage entries are absent at the end.
\<close>

theorem activate_then_reset:
  assumes "distinct (targetIDs T)"
  shows "(\<forall>k \<in> set (targetIDs T).
            cfg_get (resetSettings (activateSettings T w)) k =
              (if cfg_get w k = obj_get (getStorageState w origTargetKey) k
               then obj_get (getStorageState w origActualKey) k else cfg_get w k)) \<and>
         (storageState w origActualKey = None \<and> storageState w origTargetKey = None \<longrightarrow>
            (\<forall>k \<in> set (targetIDs T). cfg_get (resetSettings (activateSettings T w)) k = cfg_get w k)) \<and>
         storageState (resetSettings (activateSettings T w)) origActualKey = None \<and>
         storageState (resetSettings (activateSettings T w)) origTargetKey = None"
proof -
  let ?w1 = "activateSettings T w"
  have oa1: "getStorageState ?w1 origActualKey =
      map (\<lambda>k. (k, if cfg_get w k = obj_get (getStorageState w origTargetKey) k
                         then obj_get (getStorageState w origActualKey) k else cfg_get w k)) (targetIDs T)"
    by (simp add: getStorageState_def activateSettings_origActual[OF assms])
  have ot1: "getStorageState ?w1 origTargetKey = map (\<lambda>k. (k, obj_get T k)) (targetIDs T)"
    by (simp add: getStorageState_def activateSettings_origTarget[OF assms])
  have main: "cfg_get (resetSettings ?w1) k =
              (if cfg_get w k = obj_get (getStorageState w origTargetKey) k
               then obj_get (getStorageState w origActualKey) k else cfg_get w k)"
    if "k \<in> set (targetIDs T)" for k
    using that assms
    by (simp add: resetSettings_cfg oa1 ot1 object_keys_map obj_get_map activateSettings_cfg)
  have absent: "cfg_get (resetSettings ?w1) k = cfg_get w k"
    if "k \<in> set (targetIDs T)" "storageState w origActualKey = None" "storageState w origTargetKey = None" for k
    using main[OF that(1)] that(2,3) by (simp add: getStorageState_def obj_get_def)
  show ?thesis using main absent resetSettings_storage by blast
qed

text \<open>The amended round trip on the example of the spec and on \<open>overridden_world\<close>.\<close>

theorem activate_then_reset_witness:
  "distinct (targetIDs example_targetSettings) \<and>
   ''A'' \<in> set (targetIDs example_targetSettings) \<and>
   ''B'' \<in> set (targetIDs example_targetSettings) \<and>
   storageState example_world origActualKey = None \<and>
   storageState example_world origTargetKey = None \<and>
   cfg_get example_world ''A'' = JBool True \<and>
   cfg_get example_world ''B'' = JStr ''none'' \<and>
   cfg_get (resetSettings (activateSettings example_targetSettings example_world)) ''A'' = JBool True \<and>
   cfg_get (resetSettings (activateSettings example_targetSettings example_world)) ''B'' = JStr ''none'' \<and>
   cfg_get (resetSettings (activateSettings example_targetSettings overridden_world)) ''A'' = JBool True \<and>
   storageState (resetSettings (activateSettings example_targetSettings example_world)) origActualKey = None \<and>
   storageState (resetSettings (activateSettings example_targetSettings example_world)) origTargetKey = None"
  using activate_then_reset[of example_targetSettings example_world]
        activate_then_reset[of example_targetSettings overridden_world]
  by (simp add: eval_defs example_targetSettings_def overridden_world_def example_world_def)

text \<open>
  Claim C3 (external-edit preservation). For a key \<open>k\<close> of the persisted
  \<^verbatim>\<open>origActual\<close> snapshot whose live value, when \<^verbatim>\<open>resetSettings()\<close> runs,
  differs from the remembered target \<^verbatim>\<open>origTarget[k]\<close>, the reset makes no
  \<^verbatim>\<open>set\<close> call for \<open>k\<close> and the live value of \<open>k\<close> stays what the user made
  it.
\<close>

theorem reset_preserves_external_edit:
  assumes "k \<in> set (object_keys (getStorageState w origActualKey))"
    and "cfg_get w k \<noteq> obj_get (getStorageState w origTargetKey) k"
  shows "cfg_get (resetSettings w) k = cfg_get w k \<and>
         k \<notin> fst ` set (writes_since w (resetSettings w))"
proof -
  let ?oa = "getStorageState w origActualKey" and ?ot = "getStorageState w origTargetKey"
  from reset_loop_untouched[OF assms(2), of ?oa "object_keys ?oa"] obtain ws where
    a: "cfg_get (reset_loop ?oa ?ot (object_keys ?oa) w) k = cfg_get w k" and
    b: "config_writes (reset_loop ?oa ?ot (object_keys ?oa) w) = config_writes w @ ws" and
    c: "k \<notin> fst ` set ws" by blast
  have "writes_since w (resetSettings w) = ws"
    by (simp add: writes_since_def resetSettings_def Let_def config_writes_setStorageState b)
  moreover have "cfg_get (resetSettings w) k = cfg_get w k"
    by (simp add: resetSettings_def Let_def cfg_get_setStorageState a)
  ultimately show ?thesis using c by simp
qed

text \<open>In \<open>edited_world\<close> the reset restores A and leaves the user's B alone.\<close>

theorem reset_preserves_external_edit_witness:
  "''B'' \<in> set (object_keys (getStorageState edited_world origActualKey)) \<and>
   cfg_get edited_world ''B'' \<noteq> obj_get (getStorageState edited_world origTargetKey) ''B'' \<and>
   cfg_get (resetSettings edited_world) ''B'' = JStr ''on'' \<and>
   ''B'' \<notin> fst ` set (writes_since edited_world (resetSettings edited_world)) \<and>
   writes_since edited_world (resetSettings edited_world) = [(''A'', JBool True)]"
  using reset_preserves_external_edit[of "''B''" edited_world]
  by (simp add: eval_defs edited_world_def)

text \<open>
  Claim C4 (obsolete-key restoration). For a key \<open>k\<close> of the old \<^verbatim>\<open>origActual\<close>
  snapshot that is not a managed key, \<^verbatim>\<open>activateSettings()\<close> writes
  \<^verbatim>\<open>oldOrigActual[k]\<close> to the configuration in that call, which is then the live
  value of \<open>k\<close>, and \<open>k\<close> is a key of neither newly persisted snapshot.
\<close>

theorem obsolete_key_restored:
  assumes "k \<in> set (object_keys (getStorageState w origActualKey))"
    and "k \<notin> set (targetIDs T)"
  shows "cfg_get (activateSettings T w) k = obj_get (getStorageState w origActualKey) k \<and>
         (k, obj_get (getStorageState w origActualKey) k) \<in> set (writes_since w (activateSettings T w)) \<and>
         k \<notin> set (object_keys (getStorageState (activateSettings T w) origActualKey)) \<and>
         k \<notin> set (object_keys (getStorageState (activateSettings T w) origTargetKey))"
proof -
  let ?oa = "getStorageState w origActualKey"
  let ?r = "activate_loop T ?oa (getStorageState w origTargetKey) (targetIDs T) (w, [], [], object_keys ?oa)"
  have cfg: "cfg_get (activateSettings T w) k = obj_get ?oa k"
    using assms by (simp add: activateSettings_cfg)
  obtain ws where ws: "config_writes (fst ?r) = config_writes w @ ws"
    using activate_loop_writes_prefix by blast
  have "config_writes (activateSettings T w) =
        config_writes w @ ws @ map (\<lambda>k. (k, obj_get ?oa k)) (filter (\<lambda>k. k \<notin> set (targetIDs T)) (object_keys ?oa))"
    by (simp add: activateSettings_alt Let_def config_writes_setStorageState restore_obsolete_writes
        activate_loop_obsolete ws)
  then have wr: "(k, obj_get ?oa k) \<in> set (writes_since w (activateSettings T w))"
    using assms by (simp add: writes_since_def)
  have "getStorageState (activateSettings T w) origActualKey = fst (snd ?r)"
       "getStorageState (activateSettings T w) origTargetKey = fst (snd (snd ?r))"
    by (simp_all add: activateSettings_alt Let_def getStorageState_def storageState_setStorageState keys_differ)
  then have keys: "k \<notin> set (object_keys (getStorageState (activateSettings T w) origActualKey))"
      "k \<notin> set (object_keys (getStorageState (activateSettings T w) origTargetKey))"
    using assms(2) activate_loop_keys[of T ?oa "getStorageState w origTargetKey" "targetIDs T" w "[]" "[]" "object_keys ?oa"]
    by (simp_all add: object_keys_def)
  show ?thesis using cfg wr keys by blast
qed

text \<open>In \<open>shrunk_world\<close> the only write is the one that restores the obsolete key C.\<close>

theorem obsolete_key_restored_witness:
  "''C'' \<in> set (object_keys (getStorageState shrunk_world origActualKey)) \<and>
   ''C'' \<notin> set (targetIDs example_targetSettings) \<and>
   cfg_get (activateSettings example_targetSettings shrunk_world) ''C'' = JNum 2 \<and>
   writes_since shrunk_world (activateSettings example_targetSettings shrunk_world) = [(''C'', JNum 2)] \<and>
   getStorageState (activateSettings example_targetSettings shrunk_world) origActualKey =
     [(''A'', JBool True), (''B'', JStr ''none'')] \<and>
   getStorageState (activateSettings example_targetSettings shrunk_world) origTargetKey =
     [(''A'', JBool False), (''B'', JStr ''none'')]"
  using obsolete_key_restored[of "''C''" shrunk_world example_targetSettings]
  by (simp add: eval_defs example_targetSettings_def shrunk_world_def)

text \<open>
  Claim C5 (idempotence). A second \<^verbatim>\<open>activateSettings()\<close> right after a first one
  leaves every managed key's live value (indeed the whole live configuration, with no
  \<^verbatim>\<open>set\<close> call made) and both persisted snapshots as the first call left them.
\<close>

theorem activateSettings_idempotent:
  assumes "distinct (targetIDs T)"
  shows "(\<forall>k \<in> set (targetIDs T).
            cfg_get (activateSettings T (activateSettings T w)) k = cfg_get (activateSettings T w) k) \<and>
         configuration (activateSettings T (activateSettings T w)) = configuration (activateSettings T w) \<and>
         writes_since (activateSettings T w) (activateSettings T (activateSettings T w)) = [] \<and>
         storageState (activateSettings T (activateSettings T w)) origActualKey =
           storageState (activateSettings T w) origActualKey \<and>
         storageState (activateSettings T (activateSettings T w)) origTargetKey =
           storageState (activateSettings T w) origTargetKey"
proof -
  let ?w1 = "activateSettings T w"
  let ?w2 = "activateSettings T ?w1"
  let ?f = "\<lambda>k. if cfg_get w k = obj_get (getStorageState w origTargetKey) k
                 then obj_get (getStorageState w origActualKey) k else cfg_get w k"
  have oa1: "getStorageState ?w1 origActualKey = map (\<lambda>k. (k, ?f k)) (targetIDs T)"
    by (simp add: getStorageState_def activateSettings_origActual[OF assms])
  have ot1: "getStorageState ?w1 origTargetKey = map (\<lambda>k. (k, obj_get T k)) (targetIDs T)"
    by (simp add: getStorageState_def activateSettings_origTarget[OF assms])
  have live1: "cfg_get ?w1 k = obj_get T k" if "k \<in> set (targetIDs T)" for k
    using that by (simp add: activateSettings_cfg)
  have cfg: "cfg_get ?w2 k = cfg_get ?w1 k" for k
    by (simp add: activateSettings_cfg[of T ?w1] oa1 object_keys_map live1)
  then have conf: "configuration ?w2 = configuration ?w1"
    by (auto simp: cfg_get_def)
  have "filter (\<lambda>k. cfg_get ?w1 k \<noteq> obj_get T k) (targetIDs T) = []"
    by (simp add: filter_empty_conv live1)
  then have wr: "writes_since ?w1 ?w2 = []"
    by (simp add: writes_since_def activateSettings_writes[OF assms, of ?w1] oa1 object_keys_map)
  have "map (\<lambda>k. (k, if cfg_get ?w1 k = obj_get (getStorageState ?w1 origTargetKey) k
                         then obj_get (getStorageState ?w1 origActualKey) k else cfg_get ?w1 k)) (targetIDs T) =
        map (\<lambda>k. (k, ?f k)) (targetIDs T)"
    by (rule map_cong) (simp_all add: oa1 ot1 obj_get_map live1)
  then have sa: "storageState ?w2 origActualKey = storageState ?w1 origActualKey"
    by (simp add: activateSettings_origActual[OF assms])
  have st: "storageState ?w2 origTargetKey = storageState ?w1 origTargetKey"
    by (simp add: activateSettings_origTarget[OF assms])
  show ?thesis using cfg conf wr sa st by blast
qed

text \<open>Two activations of the example of the spec.\<close>

theorem activateSettings_idempotent_witness:
  "distinct (targetIDs example_targetSettings) \<and>
   ''A'' \<in> set (targetIDs example_targetSettings) \<and>
   cfg_get (activateSettings example_targetSettings example_world) ''A'' = JBool False \<and>
   cfg_get (activateSettings example_targetSettings (activateSettings example_targetSettings example_world)) ''A''
     = JBool False \<and>
   storageState (activateSettings example_targetSettings (activateSettings example_targetSettings example_world))
       origActualKey = Some [(''A'', JBool True), (''B'', JStr ''none'')] \<and>
   storageState (activateSettings example_targetSettings example_world)
       origActualKey = Some [(''A'', JBool True), (''B'', JStr ''none'')] \<and>
   storageState (activateSettings example_targetSettings (activateSettings example_targetSettings example_world))
       origTargetKey = Some [(''A'', JBool False), (''B'', JStr ''none'')]"
  using activateSettings_idempotent[of example_targetSettings example_world]
  by (simp add: eval_defs example_targetSettings_def example_world_def)

text \<open>
  Claim C6 (original-value determination). For a managed key \<open>k\<close>, the newly persisted
  \<^verbatim>\<open>origActual[k]\<close> is \<^verbatim>\<open>oldOrigActual[k]\<close> when the live value read for
  \<open>k\<close> equals \<^verbatim>\<open>oldOrigTarget[k]\<close>, and that live value otherwise, whether or
  not a \<^verbatim>\<open>set\<close> call was made for \<open>k\<close>. The managed keys are distinct, so the
  value read when the loop reaches \<open>k\<close> is the one \<open>k\<close> has when the call starts.
\<close>

theorem original_value_determination:
  assumes "distinct (targetIDs T)" and "k \<in> set (targetIDs T)"
  shows "storageState (activateSettings T w) origActualKey \<noteq> None \<and>
         obj_get (getStorageState (activateSettings T w) origActualKey) k =
           (if cfg_get w k = obj_get (getStorageState w origTargetKey) k
            then obj_get (getStorageState w origActualKey) k
            else cfg_get w k)"
  using assms by (simp add: activateSettings_origActual getStorageState_def obj_get_map)

text \<open>
  On the example of the spec: A (overridden by a write) and B (already at its target, no
  write) both have their live value remembered; in \<open>overridden_world\<close> the old
  original of A is kept.
\<close>

theorem original_value_determination_witness:
  "distinct (targetIDs example_targetSettings) \<and>
   ''A'' \<in> set (targetIDs example_targetSettings) \<and>
   obj_get (getStorageState (activateSettings example_targetSettings example_world) origActualKey) ''A''
     = JBool True \<and>
   obj_get (getStorageState (activateSettings example_targetSettings example_world) origActualKey) ''B''
     = JStr ''none'' \<and>
   obj_get (getStorageState (activateSettings example_targetSettings overridden_world) origActualKey) ''A''
     = JBool True"
  using original_value_determination[of example_targetSettings "''A''" example_world]
        original_value_determination[of example_targetSettings "''A''" overridden_world]
  by (simp add: eval_defs example_targetSettings_def example_world_def overridden_world_def)

section \<open>Properties of the monitor\<close>

lemma monitor_inv_initially: "monitor_inv initially"
  by (simp add: monitor_inv_def initially_def new_Monitor_def suspended_def)

lemma monitor_inv_enter:
  assumes "monitor_inv s" and "step (Enter c) s = Some s'"
  shows "monitor_inv s'"
proof (cases "owned (monitor s)")
  case True
  with assms show ?thesis
    by (auto simp: monitor_inv_def enter_def suspended_def split: if_splits)
next
  case False
  with assms have "suspended s = []" by (auto simp: monitor_inv_def)
  with assms have eq: "length (resumed s) = length (submitted s)"
    by (simp add: monitor_inv_def suspended_def)
  with assms False show ?thesis
    by (auto simp: monitor_inv_def enter_def suspended_def split: if_splits)
qed

lemma monitor_inv_leave:
  assumes "monitor_inv s" and "step (Leave c) s = Some s'"
  shows "monitor_inv s'"
proof -
  from assms have c: "c \<in> set (inside s)" by (simp split: if_splits)
  with assms have ins: "inside s = [c]"
    by (cases "inside s") (auto simp: monitor_inv_def)
  show ?thesis
  proof (cases "waiters (monitor s)")
    case Nil
    with assms ins show ?thesis
      by (auto simp: monitor_inv_def leave_def woken_def suspended_def)
  next
    case (Cons d ds)
    with assms have dr: "drop (length (resumed s)) (submitted s) = d # ds"
      by (simp add: monitor_inv_def suspended_def)
    then have lt: "length (resumed s) < length (submitted s)"
      by (cases "length (resumed s) < length (submitted s)") auto
    from dr lt have nth: "submitted s ! length (resumed s) = d"
      by (metis Cons_nth_drop_Suc list.inject)
    from dr lt have ds: "drop (Suc (length (resumed s))) (submitted s) = ds"
      by (metis Cons_nth_drop_Suc list.inject)
    have tk: "take (Suc (length (resumed s))) (submitted s) = resumed s @ [d]"
      using assms(1) lt nth by (simp add: take_Suc_conv_app_nth monitor_inv_def)
    have s': "s' = s\<lparr>monitor := (monitor s)\<lparr>waiters := ds\<rparr>, inside := [d],
                      resumed := resumed s @ [d]\<rparr>"
      using assms(2) c ins Cons by (simp add: woken_def leave_def)
    have ow: "owned (monitor s)" using assms(1) ins by (simp add: monitor_inv_def)
    show ?thesis
      unfolding monitor_inv_def s' suspended_def
      using lt ds tk ow by simp
  qed
qed

lemma monitor_inv_step: "monitor_inv s \<Longrightarrow> step e s = Some s' \<Longrightarrow> monitor_inv s'"
  by (cases e) (auto intro: monitor_inv_enter monitor_inv_leave)

lemma monitor_inv_run: "monitor_inv s \<Longrightarrow> run es s = Some s' \<Longrightarrow> monitor_inv s'"
proof (induction es arbitrary: s)
  case Nil
  then show ?case by simp
next
  case (Cons e es)
  then show ?case
    by (auto split: option.splits dest: monitor_inv_step)
qed

lemma run_append:
  "run (es @ es') s = (case run es s of None \<Rightarrow> None | Some s' \<Rightarrow> run es' s')"
  by (induction es arbitrary: s) (simp_all split: option.splits)

text \<open>
  Claim C2 (monitor invariant), on the monitor as the spec describes it. At every moment
  of a sequence of \<^verbatim>\<open>enter()\<close> and \<^verbatim>\<open>leave()\<close> calls with no re-entrancy and
  no unmatched leave (every prefix \<open>calls\<close> of an accepted sequence): at most one
  flow is inside the critical section; the calls resumed so far are, in the same order,
  the first of the calls submitted, so callers are resumed in the order of submission;
  and \<^verbatim>\<open>someoneIsWaiting\<close> is true exactly when some submitted \<^verbatim>\<open>enter()\<close> has
  not been resumed yet.
\<close>

theorem monitor_invariant:
  assumes "run (calls @ later) initially = Some final"
  shows "\<exists>s. run calls initially = Some s \<and>
           length (inside s) \<le> 1 \<and>
           resumed s = take (length (resumed s)) (submitted s) \<and>
           (someoneIsWaiting (monitor s) \<longleftrightarrow> suspended s \<noteq> [])"
proof -
  from assms obtain s where s: "run calls initially = Some s"
    by (auto simp: run_append split: option.splits)
  from monitor_inv_run[OF monitor_inv_initially s] s show ?thesis
    by (simp add: monitor_inv_def someoneIsWaiting_def)
qed

text \<open>
  Three flows enter, the first two leave in turn: after the first leave, flow 2 is
  inside, flow 3 is suspended and \<^verbatim>\<open>someoneIsWaiting\<close> is true.
\<close>

theorem monitor_invariant_witness:
  "run ([Enter 1, Enter 2, Enter 3, Leave 1] @ [Leave 2, Leave 3]) initially =
     Some \<lparr>monitor = \<lparr>owned = False, waiters = []\<rparr>, inside = [],
            submitted = [1, 2, 3], resumed = [1, 2, 3]\<rparr> \<and>
   run [Enter 1, Enter 2, Enter 3, Leave 1] initially =
     Some \<lparr>monitor = \<lparr>owned = True, waiters = [3]\<rparr>, inside = [2],
            submitted = [1, 2, 3], resumed = [1, 2]\<rparr> \<and>
   someoneIsWaiting \<lparr>owned = True, waiters = [3]\<rparr> \<and>
   suspended \<lparr>monitor = \<lparr>owned = True, waiters = [3]\<rparr>, inside = [2],
            submitted = [1, 2, 3], resumed = [1, 2]\<rparr> = [3]"
proof -
  have r: "run ([Enter 1, Enter 2, Enter 3, Leave 1] @ [Leave 2, Leave 3]) initially =
     Some \<lparr>monitor = \<lparr>owned = False, waiters = []\<rparr>, inside = [],
            submitted = [1, 2, 3], resumed = [1, 2, 3]\<rparr>"
    by (simp add: initially_def new_Monitor_def enter_def leave_def woken_def suspended_def)
  have r2: "run [Enter 1, Enter 2, Enter 3, Leave 1] initially =
     Some \<lparr>monitor = \<lparr>owned = True, waiters = [3]\<rparr>, inside = [2],
            submitted = [1, 2, 3], resumed = [1, 2]\<rparr>"
    by (simp add: initially_def new_Monitor_def enter_def leave_def woken_def suspended_def)
  from monitor_invariant[OF r] r r2 show ?thesis
    by (simp add: someoneIsWaiting_def suspended_def)
qed

section \<open>Properties of the layout manager\<close>

lemmas manager_defs = handleWasZoomRequested_critical_def finally_leave_def emit_def leave_def
  someoneIsWaiting_def

lemmas example_defs = active_manager_def misconfigured_manager_def example_uris_def other_uris_def
  new_Monitor_def layoutSettingID_def extensionID_def

lemma await_enter_free:
  "\<not> owned (layouterManagerMonitor st) \<Longrightarrow>
   await_enter c body st =
     Done (body (st\<lparr>layouterManagerMonitor := (layouterManagerMonitor st)\<lparr>owned := True\<rparr>\<rparr>))"
  by (simp add: await_enter_def enter_def)

lemma await_enter_owned:
  "owned (layouterManagerMonitor st) \<Longrightarrow>
   await_enter c body st =
     Waiting (st\<lparr>layouterManagerMonitor :=
                (layouterManagerMonitor st)\<lparr>waiters := waiters (layouterManagerMonitor st) @ [c]\<rparr>\<rparr>)"
  by (simp add: await_enter_def enter_def)

lemma zoom_dropped:
  assumes "someoneIsWaiting (layouterManagerMonitor st)"
  shows "handleWasZoomRequested_critical zoom st = finally_leave st"
  using assms by (simp add: handleWasZoomRequested_critical_def)

lemma zoom_refused:
  assumes "\<not> someoneIsWaiting (layouterManagerMonitor st)" and "\<not> session_active st"
  shows "handleWasZoomRequested_critical zoom st =
           finally_leave (emit (ShowErrorMessage zoom_inactive_message []) st)"
  using assms
  by (simp add: handleWasZoomRequested_critical_def session_active_def split: option.splits)

lemma zoom_applied:
  assumes "\<not> someoneIsWaiting (layouterManagerMonitor st)"
    and "layouter st = Some l" and "isActive l"
  shows "handleWasZoomRequested_critical zoom st = finally_leave (emit (SetLayout (session l) zoom) st)"
  using assms by (simp add: handleWasZoomRequested_critical_def)

lemma waiters_finally_leave:
  "waiters (layouterManagerMonitor (finally_leave st)) = tl (waiters (layouterManagerMonitor st))"
  by (cases "waiters (layouterManagerMonitor st)") (simp_all add: finally_leave_def leave_def)

lemma events_finally_leave: "events (finally_leave st) = events st"
  by (simp add: finally_leave_def)

lemma layouter_finally_leave: "layouter (finally_leave st) = layouter st"
  by (simp add: finally_leave_def)

lemma events_emit: "events (emit e st) = events st @ [e]"
  by (simp add: emit_def)

lemma layouter_emit: "layouter (emit e st) = layouter st"
  by (simp add: emit_def)

text \<open>
  Claim C7 (zoom load shedding) as it is stated fails: the handler reads
  \<^verbatim>\<open>someoneIsWaiting\<close> only after \<^verbatim>\<open>await enter()\<close> (lines 404 to 406), so a
  request is never dropped on arrival. On \<open>contended_manager\<close> the monitor is held
  and flow 7 is waiting, so \<^verbatim>\<open>someoneIsWaiting\<close> is true when request 9 arrives; the
  request is not dropped but queued behind flow 7. When the holder and flow 7 have left
  and nobody else has come, the request is resumed and calls \<^verbatim>\<open>setLayout\<close>.
\<close>

theorem zoom_request_queued_counterexample:
  "someoneIsWaiting (layouterManagerMonitor contended_manager) \<and>
   handleWasZoomRequested 9 (ZoomOther 2) contended_manager =
     Waiting (contended_manager\<lparr>layouterManagerMonitor := \<lparr>owned = True, waiters = [7, 9]\<rparr>\<rparr>) \<and>
   leave (leave \<lparr>owned = True, waiters = [7, 9]\<rparr>) = \<lparr>owned = True, waiters = []\<rparr> \<and>
   events (handleWasZoomRequested_critical (ZoomOther 2)
             (contended_manager\<lparr>layouterManagerMonitor := \<lparr>owned = True, waiters = []\<rparr>\<rparr>)) =
     [SetLayout 0 (ZoomOther 2)]"
  by (simp add: handleWasZoomRequested_def await_enter_def enter_def manager_defs
      contended_manager_def active_manager_def)

text \<open>
  Claim C7, as amended. A zoom request first acquires the monitor as every caller does:
  on a held monitor it is queued behind the holder and the earlier waiters, whatever
  \<^verbatim>\<open>someoneIsWaiting\<close> says, and nothing is shown or laid out meanwhile; on a free
  monitor it enters at once. Once it has entered (at once, or when it is resumed): if
  \<^verbatim>\<open>someoneIsWaiting\<close> is true, the request is dropped, the monitor is left and
  nothing else changes (no message, no layouter call); if it is false and no session is
  active, the error message is shown, with no layouter call; otherwise
  \<^verbatim>\<open>setLayout\<close> of the active session is called with the requested zoom. In each
  case the state after the request is given in full.
\<close>

theorem zoom_request_handling:
  "(owned (layouterManagerMonitor st) \<longrightarrow>
      handleWasZoomRequested c zoom st =
        Waiting (st\<lparr>layouterManagerMonitor :=
                   (layouterManagerMonitor st)\<lparr>waiters := waiters (layouterManagerMonitor st) @ [c]\<rparr>\<rparr>)) \<and>
   (\<not> owned (layouterManagerMonitor st) \<longrightarrow>
      handleWasZoomRequested c zoom st =
        Done (handleWasZoomRequested_critical zoom
                (st\<lparr>layouterManagerMonitor := (layouterManagerMonitor st)\<lparr>owned := True\<rparr>\<rparr>))) \<and>
   (someoneIsWaiting (layouterManagerMonitor st) \<longrightarrow>
      handleWasZoomRequested_critical zoom st =
        st\<lparr>layouterManagerMonitor := leave (layouterManagerMonitor st)\<rparr>) \<and>
   (\<not> someoneIsWaiting (layouterManagerMonitor st) \<and> \<not> session_active st \<longrightarrow>
      handleWasZoomRequested_critical zoom st =
        st\<lparr>events := events st @ [ShowErrorMessage zoom_inactive_message []],
           layouterManagerMonitor := leave (layouterManagerMonitor st)\<rparr>) \<and>
   (\<not> someoneIsWaiting (layouterManagerMonitor st) \<and> session_active st \<longrightarrow>
      (\<exists>l. layouter st = Some l \<and> isActive l \<and>
           handleWasZoomRequested_critical zoom st =
             st\<lparr>events := events st @ [SetLayout (session l) zoom],
                layouterManagerMonitor := leave (layouterManagerMonitor st)\<rparr>))"
proof (intro conjI impI)
  assume "owned (layouterManagerMonitor st)"
  then show "handleWasZoomRequested c zoom st =
        Waiting (st\<lparr>layouterManagerMonitor :=
                   (layouterManagerMonitor st)\<lparr>waiters := waiters (layouterManagerMonitor st) @ [c]\<rparr>\<rparr>)"
    by (simp add: handleWasZoomRequested_def await_enter_owned)
next
  assume "\<not> owned (layouterManagerMonitor st)"
  then show "handleWasZoomRequested c zoom st =
        Done (handleWasZoomRequested_critical zoom
                (st\<lparr>layouterManagerMonitor := (layouterManagerMonitor st)\<lparr>owned := True\<rparr>\<rparr>))"
    by (simp add: handleWasZoomRequested_def await_enter_free)
next
  assume "someoneIsWaiting (layouterManagerMonitor st)"
  then show "handleWasZoomRequested_critical zoom st =
        st\<lparr>layouterManagerMonitor := leave (layouterManagerMonitor st)\<rparr>"
    by (simp add: zoom_dropped finally_leave_def)
next
  assume "\<not> someoneIsWaiting (layouterManagerMonitor st) \<and> \<not> session_active st"
  then show "handleWasZoomRequested_critical zoom st =
        st\<lparr>events := events st @ [ShowErrorMessage zoom_inactive_message []],
           layouterManagerMonitor := leave (layouterManagerMonitor st)\<rparr>"
    by (simp add: zoom_refused finally_leave_def emit_def)
next
  assume a: "\<not> someoneIsWaiting (layouterManagerMonitor st) \<and> session_active st"
  then obtain l where l: "layouter st = Some l" "isActive l"
    by (auto simp: session_active_def split: option.splits)
  with a have "handleWasZoomRequested_critical zoom st =
             st\<lparr>events := events st @ [SetLayout (session l) zoom],
                layouterManagerMonitor := leave (layouterManagerMonitor st)\<rparr>"
    by (simp add: zoom_applied finally_leave_def emit_def)
  with l show "\<exists>l. layouter st = Some l \<and> isActive l \<and>
           handleWasZoomRequested_critical zoom st =
             st\<lparr>events := events st @ [SetLayout (session l) zoom],
                layouterManagerMonitor := leave (layouterManagerMonitor st)\<rparr>"
    by blast
qed

text \<open>
  A request on the held monitor of \<open>contended_manager\<close> and on the free monitor of
  \<open>active_manager\<close>, and the three cases after entry on \<open>contended_manager\<close>,
  \<open>idle_manager\<close> and \<open>entered_manager\<close>.
\<close>

theorem zoom_request_handling_witness:
  "owned (layouterManagerMonitor contended_manager) \<and>
   handleWasZoomRequested 9 (ZoomOther 2) contended_manager =
     Waiting (contended_manager\<lparr>layouterManagerMonitor := \<lparr>owned = True, waiters = [7, 9]\<rparr>\<rparr>) \<and>
   \<not> owned (layouterManagerMonitor active_manager) \<and>
   handleWasZoomRequested 9 (ZoomOther 2) active_manager =
     Done (active_manager\<lparr>events := [SetLayout 0 (ZoomOther 2)]\<rparr>) \<and>
   someoneIsWaiting (layouterManagerMonitor contended_manager) \<and>
   handleWasZoomRequested_critical (ZoomOther 2) contended_manager =
     contended_manager\<lparr>layouterManagerMonitor := \<lparr>owned = True, waiters = []\<rparr>\<rparr> \<and>
   \<not> someoneIsWaiting (layouterManagerMonitor idle_manager) \<and> \<not> session_active idle_manager \<and>
   handleWasZoomRequested_critical (ZoomOther 2) idle_manager =
     idle_manager\<lparr>events := [ShowErrorMessage zoom_inactive_message []],
                  layouterManagerMonitor := new_Monitor\<rparr> \<and>
   \<not> someoneIsWaiting (layouterManagerMonitor entered_manager) \<and> session_active entered_manager \<and>
   handleWasZoomRequested_critical (ZoomOther 2) entered_manager =
     entered_manager\<lparr>events := [SetLayout 0 (ZoomOther 2)], layouterManagerMonitor := new_Monitor\<rparr>"
  using zoom_request_handling[of contended_manager 9 "ZoomOther 2"]
        zoom_request_handling[of active_manager 9 "ZoomOther 2"]
        zoom_request_handling[of idle_manager 9 "ZoomOther 2"]
        zoom_request_handling[of entered_manager 9 "ZoomOther 2"]
  by (simp add: manager_defs session_active_def contended_manager_def idle_manager_def
      entered_manager_def active_manager_def new_Monitor_def)

lemma switchLayout_without_session:
  "layouter st = None \<Longrightarrow>
   switchLayout c layoutName pickResult activated st =
     Done (Returned, emit (ShowErrorMessage not_active_message []) st)"
  by (simp add: switchLayout_def)

text \<open>
  Claim C8 (stale or invalid switch aborts) holds of the code when no session is active
  (\<open>switchLayout_without_session\<close>). It does not hold when the target is the factory
  of the active session: the \<^verbatim>\<open>if\<close> that shows "The situation has changed
  meanwhile. Please try again." has no \<^verbatim>\<open>return\<close>, so the method goes on, enters
  the monitor and calls \<^verbatim>\<open>activateLayouter\<close>. On \<open>active_manager\<close>, asked to
  switch to the kind that is active: the message is shown, then session 0 is deactivated
  and a new session 1 of the same kind is created, activated and announced.
\<close>

theorem switch_to_current_kind_is_not_aborted:
  "map_option session (layouter active_manager) = Some 0 \<and>
   layouterFactory active_manager = Some (Factory 0 ''3DiffToBase'') \<and>
   done_result (switchLayout 1 (JStr ''3DiffToBase'') None True active_manager) = Some Returned \<and>
   map_option events (done_state (switchLayout 1 (JStr ''3DiffToBase'') None True active_manager)) =
     Some [ShowErrorMessage situation_changed_message [],
           Deactivate 0 True,
           Create (Factory 0 ''3DiffToBase'') 1,
           TryActivate 1 ZoomDefault True,
           FireDidLayoutActivate 1] \<and>
   map_option (map_option session \<circ> layouter)
     (done_state (switchLayout 1 (JStr ''3DiffToBase'') None True active_manager)) = Some (Some 1)"
  by (simp add: switchLayout_def switchLayout_critical_def await_enter_def enter_def activateLayouter_def
      activateSwitchLayoutStatusBarItem_def finally_leave_def leave_def emit_def done_state_def
      done_result_def example_defs Let_def)

lemma getLayoutFactory_cancel:
  assumes "kind_unknown st" and "answer = Some Cancel \<or> answer = None"
  shows "getLayoutFactory (answer # answers) st =
           Some (None, emit (ShowErrorMessage unknown_layout_message repair_items) st)"
  using assms by (auto simp: getLayoutFactory_def kind_unknown_def Let_def)

text \<open>
  Claim C9 (a cancelled kind repair aborts the open request). The repair prompt is shown
  when \<^verbatim>\<open>openDiffedURIs\<close> gets as far as resolving the layout kind, that is, when the
  requested content is not the content of the session that is already open. Then, if the
  configured kind names no registered factory and the user answers the prompt with
  cancel or dismisses it, \<^verbatim>\<open>getLayoutFactory\<close> yields no factory,
  \<^verbatim>\<open>openDiffedURIs\<close> returns \<^verbatim>\<open>false\<close>, and nothing but the prompt has
  happened: the session, its factory, the configuration and the persisted settings
  snapshots, the status bar item and the number of layouters created are what they were,
  and the monitor has been left.
\<close>

theorem cancelled_repair_aborts_open:
  assumes "kind_unknown st"
    and "answer = Some Cancel \<or> answer = None"
    and "\<not> already_open uris st"
  shows "getLayoutFactory (answer # answers) st =
           Some (None, emit (ShowErrorMessage unknown_layout_message repair_items) st) \<and>
         (\<exists>st'. openDiffedURIs_critical uris closeActiveEditor deactivationHandler
                  (answer # answers) activated st = Some (False, st') \<and>
               layouter st' = layouter st \<and>
               layouterFactory st' = layouterFactory st \<and>
               vSCodeConfigurator st' = vSCodeConfigurator st \<and>
               switchLayoutStatusBarItem st' = switchLayoutStatusBarItem st \<and>
               created st' = created st \<and>
               events st' = events st @ [ShowErrorMessage unknown_layout_message repair_items] \<and>
               layouterManagerMonitor st' = leave (layouterManagerMonitor st))"
  using assms
  by (simp add: getLayoutFactory_cancel openDiffedURIs_critical_def finally_leave_def emit_def)

text \<open>On \<open>misconfigured_entered\<close>, opening other content and cancelling the prompt.\<close>

theorem cancelled_repair_aborts_open_witness:
  "kind_unknown misconfigured_entered \<and>
   \<not> already_open other_uris misconfigured_entered \<and>
   getLayoutFactory [Some Cancel] misconfigured_entered =
     Some (None, emit (ShowErrorMessage unknown_layout_message repair_items) misconfigured_entered) \<and>
   map_option fst (openDiffedURIs_critical other_uris False False [Some Cancel] True misconfigured_entered)
     = Some False \<and>
   map_option (layouter \<circ> snd)
     (openDiffedURIs_critical other_uris False False [Some Cancel] True misconfigured_entered)
     = Some (layouter misconfigured_entered) \<and>
   map_option (events \<circ> snd)
     (openDiffedURIs_critical other_uris False False [Some Cancel] True misconfigured_entered)
     = Some [ShowErrorMessage unknown_layout_message repair_items]"
proof -
  have a: "kind_unknown misconfigured_entered"
    by (simp add: kind_unknown_def misconfigured_entered_def example_defs cfg_get_def)
  have b: "\<not> already_open other_uris misconfigured_entered"
    by (simp add: already_open_def misconfigured_entered_def example_defs equalsWithoutBackup_def)
  have c: "Some Cancel = Some Cancel \<or> Some Cancel = None" by simp
  have e: "events misconfigured_entered = []"
    by (simp add: misconfigured_entered_def example_defs)
  from cancelled_repair_aborts_open[OF a c b, of "[]" False False True] a b e
  show ?thesis by auto
qed

section \<open>Properties of the files merger\<close>

lemmas merger_defs = mergeArbitraryFiles_def merge_by_git_def merge_file_result_def step_failed_def
  is_OpenDiffedURIs_def Let_def

lemma git_error_iff:
  "git_error gitResult \<longleftrightarrow>
     (\<exists>code. error gitResult = Some code \<and>
        (code = None \<or> (\<exists>n. code = Some n \<and> (n < 0 \<or> 127 < n))))"
  by (auto simp: git_error_def split: option.splits)

lemma merge_by_git_ok:
  "fst (merge_by_git env gitPath sel) \<longleftrightarrow>
     (\<forall>call \<in> set (snd (merge_by_git env gitPath sel)). \<not> step_failed env call)"
  by (simp add: merge_by_git_def merge_file_result_def Let_def step_failed_def)

lemma merge_by_git_never_opens:
  "filter is_OpenDiffedURIs (snd (merge_by_git env gitPath sel)) = []"
  by (simp add: merge_by_git_def Let_def is_OpenDiffedURIs_def)

text \<open>
  Seen from the log: if a call that the method has made fails, the method returns
  \<^verbatim>\<open>false\<close> and has not called \<^verbatim>\<open>openDiffedURIs\<close>; if none fails, its last call,
  and its only call of \<^verbatim>\<open>openDiffedURIs\<close>, is the one for the selected files.
\<close>

lemma mergeArbitraryFiles_failed_call:
  "((\<exists>call \<in> set (snd (mergeArbitraryFiles env)). step_failed env call) \<longrightarrow>
      fst (mergeArbitraryFiles env) = False \<and>
      filter is_OpenDiffedURIs (snd (mergeArbitraryFiles env)) = []) \<and>
   ((\<forall>call \<in> set (snd (mergeArbitraryFiles env)). \<not> step_failed env call) \<longrightarrow>
      (\<exists>selectionResult. doSelection env = Some selectionResult \<and>
         fst (mergeArbitraryFiles env) =
           manager_openDiffedURIs env (selected_uris selectionResult) False \<and>
         filter is_OpenDiffedURIs (snd (mergeArbitraryFiles env)) =
           [OpenDiffedURIs (selected_uris selectionResult) False] \<and>
         last (snd (mergeArbitraryFiles env)) = OpenDiffedURIs (selected_uris selectionResult) False))"
proof (cases "doSelection env")
  case None
  then show ?thesis
    by (simp add: mergeArbitraryFiles_def step_failed_def is_OpenDiffedURIs_def)
next
  case (Some sel)
  note sel = this
  show ?thesis
  proof (cases "getVSCGitPathInteractively env")
    case None
    with sel show ?thesis
      by (simp add: mergeArbitraryFiles_def step_failed_def is_OpenDiffedURIs_def)
  next
    case (Some gitPath)
    note git = this
    show ?thesis
    proof (cases "merged_emptyLoc sel = Some True")
      case False
      with sel git show ?thesis
        by (simp add: mergeArbitraryFiles_def step_failed_def is_OpenDiffedURIs_def)
    next
      case True
      show ?thesis
      proof (cases "fst (merge_by_git env gitPath sel)")
        case True
        with \<open>merged_emptyLoc sel = Some True\<close> sel git merge_by_git_ok[of env gitPath sel]
          merge_by_git_never_opens[of env gitPath sel]
        show ?thesis
          by (simp add: mergeArbitraryFiles_def step_failed_def is_OpenDiffedURIs_def)
      next
        case False
        with \<open>merged_emptyLoc sel = Some True\<close> sel git merge_by_git_ok[of env gitPath sel]
          merge_by_git_never_opens[of env gitPath sel]
        show ?thesis
          by (auto simp: mergeArbitraryFiles_def step_failed_def is_OpenDiffedURIs_def)
      qed
    qed
  qed
qed

text \<open>
  Claim C10, on what the collaborators answer. A cancelled selection gives
  \<^verbatim>\<open>false\<close> after that one call. A selection with no git path gives
  \<^verbatim>\<open>false\<close> after the lookup. Git is run, and the merged file written, only when
  the merged location is empty (line 43); then a git error with an undefined or negative
  code or one above 127 gives \<^verbatim>\<open>false\<close> after the error message, and a failed write
  of the merged file gives \<^verbatim>\<open>false\<close> after the write. In none of these four cases is
  \<^verbatim>\<open>openDiffedURIs\<close> called. In the two cases that are left (git and the write
  succeed, or the merged location is not empty and neither is run) the last call of the
  method, and its only call of \<^verbatim>\<open>openDiffedURIs\<close>, is the one for the selected
  files with \<^verbatim>\<open>closeActiveEditor = false\<close>, and its result is returned. The result
  and the calls are given in full in each case; and a run with no \<^verbatim>\<open>openDiffedURIs\<close>
  call returns \<^verbatim>\<open>false\<close>.
\<close>

theorem mergeArbitraryFiles_outcome:
  "(doSelection env = None \<longrightarrow>
      mergeArbitraryFiles env = (False, [DoSelection])) \<and>
   (doSelection env = Some sel \<and> getVSCGitPathInteractively env = None \<longrightarrow>
      mergeArbitraryFiles env = (False, [DoSelection, GetVSCGitPathInteractively])) \<and>
   (doSelection env = Some sel \<and> getVSCGitPathInteractively env = Some gitPath \<and>
    merged_emptyLoc sel = Some True \<and> git_error (merge_file_result env gitPath sel) \<longrightarrow>
      mergeArbitraryFiles env =
        (False,
         [DoSelection, GetVSCGitPathInteractively,
          ExecFile gitPath (merge_file_arguments sel) (dirname env (merged_fsPath sel)),
          MergerShowErrorMessage
            (''Error when merging files by Git: '' @ stderr (merge_file_result env gitPath sel) @ ''.'')])) \<and>
   (doSelection env = Some sel \<and> getVSCGitPathInteractively env = Some gitPath \<and>
    merged_emptyLoc sel = Some True \<and> \<not> git_error (merge_file_result env gitPath sel) \<and>
    \<not> writeFile env (merged_fsPath sel) (stdout (merge_file_result env gitPath sel)) \<longrightarrow>
      mergeArbitraryFiles env =
        (False,
         [DoSelection, GetVSCGitPathInteractively,
          ExecFile gitPath (merge_file_arguments sel) (dirname env (merged_fsPath sel)),
          WriteFile (merged_fsPath sel) (stdout (merge_file_result env gitPath sel))])) \<and>
   (doSelection env = Some sel \<and> getVSCGitPathInteractively env = Some gitPath \<and>
    merged_emptyLoc sel = Some True \<and> \<not> git_error (merge_file_result env gitPath sel) \<and>
    writeFile env (merged_fsPath sel) (stdout (merge_file_result env gitPath sel)) \<longrightarrow>
      mergeArbitraryFiles env =
        (manager_openDiffedURIs env (selected_uris sel) False,
         [DoSelection, GetVSCGitPathInteractively,
          ExecFile gitPath (merge_file_arguments sel) (dirname env (merged_fsPath sel)),
          WriteFile (merged_fsPath sel) (stdout (merge_file_result env gitPath sel)),
          OpenDiffedURIs (selected_uris sel) False])) \<and>
   (doSelection env = Some sel \<and> getVSCGitPathInteractively env = Some gitPath \<and>
    merged_emptyLoc sel \<noteq> Some True \<longrightarrow>
      mergeArbitraryFiles env =
        (manager_openDiffedURIs env (selected_uris sel) False,
         [DoSelection, GetVSCGitPathInteractively, OpenDiffedURIs (selected_uris sel) False])) \<and>
   (filter is_OpenDiffedURIs (snd (mergeArbitraryFiles env)) = [] \<longrightarrow>
      fst (mergeArbitraryFiles env) = False)"
proof (intro conjI impI)
  assume "doSelection env = None"
  then show "mergeArbitraryFiles env = (False, [DoSelection])"
    by (simp add: mergeArbitraryFiles_def)
next
  assume "doSelection env = Some sel \<and> getVSCGitPathInteractively env = None"
  then show "mergeArbitraryFiles env = (False, [DoSelection, GetVSCGitPathInteractively])"
    by (simp add: mergeArbitraryFiles_def)
next
  assume "doSelection env = Some sel \<and> getVSCGitPathInteractively env = Some gitPath \<and>
    merged_emptyLoc sel = Some True \<and> git_error (merge_file_result env gitPath sel)"
  then show "mergeArbitraryFiles env =
        (False,
         [DoSelection, GetVSCGitPathInteractively,
          ExecFile gitPath (merge_file_arguments sel) (dirname env (merged_fsPath sel)),
          MergerShowErrorMessage
            (''Error when merging files by Git: '' @ stderr (merge_file_result env gitPath sel) @ ''.'')])"
    by (simp add: mergeArbitraryFiles_def merge_by_git_def Let_def)
next
  assume "doSelection env = Some sel \<and> getVSCGitPathInteractively env = Some gitPath \<and>
    merged_emptyLoc sel = Some True \<and> \<not> git_error (merge_file_result env gitPath sel) \<and>
    \<not> writeFile env (merged_fsPath sel) (stdout (merge_file_result env gitPath sel))"
  then show "mergeArbitraryFiles env =
        (False,
         [DoSelection, GetVSCGitPathInteractively,
          ExecFile gitPath (merge_file_arguments sel) (dirname env (merged_fsPath sel)),
          WriteFile (merged_fsPath sel) (stdout (merge_file_result env gitPath sel))])"
    by (simp add: mergeArbitraryFiles_def merge_by_git_def Let_def)
next
  assume "doSelection env = Some sel \<and> getVSCGitPathInteractively env = Some gitPath \<and>
    merged_emptyLoc sel = Some True \<and> \<not> git_error (merge_file_result env gitPath sel) \<and>
    writeFile env (merged_fsPath sel) (stdout (merge_file_result env gitPath sel))"
  then show "mergeArbitraryFiles env =
        (manager_openDiffedURIs env (selected_uris sel) False,
         [DoSelection, GetVSCGitPathInteractively,
          ExecFile gitPath (merge_file_arguments sel) (dirname env (merged_fsPath sel)),
          WriteFile (merged_fsPath sel) (stdout (merge_file_result env gitPath sel)),
          OpenDiffedURIs (selected_uris sel) False])"
    by (simp add: mergeArbitraryFiles_def merge_by_git_def Let_def)
next
  assume "doSelection env = Some sel \<and> getVSCGitPathInteractively env = Some gitPath \<and>
    merged_emptyLoc sel \<noteq> Some True"
  then show "mergeArbitraryFiles env =
        (manager_openDiffedURIs env (selected_uris sel) False,
         [DoSelection, GetVSCGitPathInteractively, OpenDiffedURIs (selected_uris sel) False])"
    by (simp add: mergeArbitraryFiles_def)
next
  assume "filter is_OpenDiffedURIs (snd (mergeArbitraryFiles env)) = []"
  then show "fst (mergeArbitraryFiles env) = False"
    by (auto simp: merger_defs split: option.splits if_splits)
qed

text \<open>
  One input for each case: a cancelled selection; no git path; git exiting with 128,
  with an undefined code and with a negative code; a file that cannot be written; git
  exiting with 1 (one conflict), a write that succeeds and the layout opened; and a merged
  location that is not empty, for which git is not run.
\<close>

theorem mergeArbitraryFiles_outcome_witness:
  "doSelection cancelled_env = None \<and>
   mergeArbitraryFiles cancelled_env = (False, [DoSelection]) \<and>
   doSelection no_git_env = Some example_selection \<and>
   getVSCGitPathInteractively no_git_env = None \<and>
   mergeArbitraryFiles no_git_env = (False, [DoSelection, GetVSCGitPathInteractively]) \<and>
   git_error (merge_file_result (example_env (Some (Some 128))) ''/usr/bin/git'' example_selection) \<and>
   mergeArbitraryFiles (example_env (Some (Some 128))) =
     (False,
      [DoSelection, GetVSCGitPathInteractively,
       ExecFile ''/usr/bin/git'' [''merge-file'', ''--stdout'', ''/w/local'', ''/w/base'', ''/w/remote'']
         ''/w'',
       MergerShowErrorMessage ''Error when merging files by Git: conflict.'']) \<and>
   git_error (merge_file_result (example_env (Some None)) ''/usr/bin/git'' example_selection) \<and>
   fst (mergeArbitraryFiles (example_env (Some None))) = False \<and>
   git_error (merge_file_result (example_env (Some (Some (- 1)))) ''/usr/bin/git'' example_selection) \<and>
   fst (mergeArbitraryFiles (example_env (Some (Some (- 1))))) = False \<and>
   \<not> git_error (merge_file_result unwritable_env ''/usr/bin/git'' example_selection) \<and>
   \<not> writeFile unwritable_env ''/w/merged'' ''merged text'' \<and>
   mergeArbitraryFiles unwritable_env =
     (False,
      [DoSelection, GetVSCGitPathInteractively,
       ExecFile ''/usr/bin/git'' [''merge-file'', ''--stdout'', ''/w/local'', ''/w/base'', ''/w/remote'']
         ''/w'',
       WriteFile ''/w/merged'' ''merged text'']) \<and>
   \<not> git_error (merge_file_result (example_env (Some (Some 1))) ''/usr/bin/git'' example_selection) \<and>
   mergeArbitraryFiles (example_env (Some (Some 1))) =
     (True,
      [DoSelection, GetVSCGitPathInteractively,
       ExecFile ''/usr/bin/git'' [''merge-file'', ''--stdout'', ''/w/local'', ''/w/base'', ''/w/remote'']
         ''/w'',
       WriteFile ''/w/merged'' ''merged text'',
       OpenDiffedURIs (selected_uris example_selection) False]) \<and>
   merged_emptyLoc (example_selection\<lparr>merged_emptyLoc := None\<rparr>) \<noteq> Some True \<and>
   mergeArbitraryFiles (occupied_env None) =
     (True,
      [DoSelection, GetVSCGitPathInteractively,
       OpenDiffedURIs (selected_uris (example_selection\<lparr>merged_emptyLoc := None\<rparr>)) False])"
  using mergeArbitraryFiles_outcome[of cancelled_env example_selection "''/usr/bin/git''"]
        mergeArbitraryFiles_outcome[of no_git_env example_selection "''/usr/bin/git''"]
        mergeArbitraryFiles_outcome[of "example_env (Some (Some 128))" example_selection "''/usr/bin/git''"]
        mergeArbitraryFiles_outcome[of "example_env (Some None)" example_selection "''/usr/bin/git''"]
        mergeArbitraryFiles_outcome[of "example_env (Some (Some (- 1)))" example_selection "''/usr/bin/git''"]
        mergeArbitraryFiles_outcome[of unwritable_env example_selection "''/usr/bin/git''"]
        mergeArbitraryFiles_outcome[of "example_env (Some (Some 1))" example_selection "''/usr/bin/git''"]
        mergeArbitraryFiles_outcome[of "occupied_env None"
          "example_selection\<lparr>merged_emptyLoc := None\<rparr>" "''/usr/bin/git''"]
  by (simp add: merger_defs example_env_def example_selection_def git_error_def
      merge_file_arguments_def cancelled_env_def no_git_env_def unwritable_env_def occupied_env_def
      selected_uris_def readonlyFileURI_def)

end
